theory Spec2Isabelle
  imports Main "HOL-Library.Sublist" "HOL-Library.AList"
begin

section \<open>Text primitives\<close>

text \<open>
  Message texts, phrases and triggers are Python \<^verbatim>\<open>str\<close> values: sequences of Unicode
  code points, modelled as lists of natural numbers. What the interpreter decides about
  code points comes from its Unicode database, which is no part of this repository, so
  it is a parameter \<open>uc\<close> of every function that depends on it:
  \<^item> \<open>isspace\<close>: the white space that \<^verbatim>\<open>str.strip()\<close> removes and that \<^verbatim>\<open>\s\<close> matches;
  \<^item> \<open>isdecimal\<close>: the decimal digits that \<^verbatim>\<open>\d\<close> matches;
  \<^item> \<open>isalnum\<close>: the alphanumeric code points (\<^verbatim>\<open>\w\<close> matches them and the underscore);
  \<^item> \<open>str_lower\<close>: \<^verbatim>\<open>str.lower()\<close>, a function of the whole string (it is not a
    character-wise map in Unicode).
  Nothing is assumed of the four tables, so every theorem below holds for those of any
  interpreter.
\<close>

type_synonym ustr = "nat list"

record unicode =
  isspace :: "nat \<Rightarrow> bool"
  isdecimal :: "nat \<Rightarrow> bool"
  isalnum :: "nat \<Rightarrow> bool"
  str_lower :: "ustr \<Rightarrow> ustr"

text \<open>The code point of an ASCII character, and a string literal of the source.\<close>

definition cp :: "char \<Rightarrow> nat" where
  "cp c = of_char c"

definition ascii :: "string \<Rightarrow> ustr" where
  "ascii s = map cp s"

definition is_digit :: "unicode \<Rightarrow> nat \<Rightarrow> bool" where
  "is_digit uc c = isdecimal uc c"

definition is_space :: "unicode \<Rightarrow> nat \<Rightarrow> bool" where
  "is_space uc c = isspace uc c"

definition is_word :: "unicode \<Rightarrow> nat \<Rightarrow> bool" where
  "is_word uc c = (isalnum uc c \<or> c = cp CHR ''_'')"

definition lower :: "unicode \<Rightarrow> ustr \<Rightarrow> ustr" where
  "lower uc s = str_lower uc s"

definition strip :: "unicode \<Rightarrow> ustr \<Rightarrow> ustr" where
  "strip uc s = rev (dropWhile (is_space uc) (rev (dropWhile (is_space uc) s)))"

text \<open>\<^verbatim>\<open>k in s\<close> on strings: \<open>k\<close> occurs in \<open>s\<close> as a contiguous substring.\<close>

fun contains :: "ustr \<Rightarrow> ustr \<Rightarrow> bool" where
  "contains k [] = (k = [])"
| "contains k (c # s) = (prefix k (c # s) \<or> contains k s)"

text \<open>Decimal rendering of an integer, as an f-string prints a user id.\<close>

function str_nat :: "nat \<Rightarrow> string" where
  "str_nat n = (if n < 10 then [char_of (48 + n)] else str_nat (n div 10) @ [char_of (48 + n mod 10)])"
  by pat_completeness auto
termination
  by (relation "measure id") auto

definition str_int :: "int \<Rightarrow> string" where
  "str_int i = (if i < 0 then CHR ''-'' # str_nat (nat (- i)) else str_nat (nat i))"

text \<open>
  The tables of the interpreter on the ASCII range, for the concrete instances below,
  whose texts are all ASCII. Beyond ASCII this instance puts a code point in no class
  and leaves it alone; it is used in no other place.
\<close>

definition ascii_tables :: unicode where
  "ascii_tables =
     \<lparr>isspace = (\<lambda>n. (9 \<le> n \<and> n \<le> 13) \<or> (28 \<le> n \<and> n \<le> 32)),
      isdecimal = (\<lambda>n. 48 \<le> n \<and> n \<le> 57),
      isalnum = (\<lambda>n. (48 \<le> n \<and> n \<le> 57) \<or> (65 \<le> n \<and> n \<le> 90) \<or> (97 \<le> n \<and> n \<le> 122)),
      str_lower = map (\<lambda>n. if 65 \<le> n \<and> n \<le> 90 then n + 32 else n)\<rparr>"

section \<open>Regular-expression searches of the source\<close>

text \<open>
  \<^verbatim>\<open>re.search(p, s)\<close> succeeds when \<open>p\<close> matches at some start position of \<open>s\<close>, the
  end of the string included. A look-behind or \<^verbatim>\<open>\b\<close> at the start position reads the
  character before it, so the scan hands the previous character (\<open>None\<close> at the start
  of the string) to the matcher together with the rest of the string.
\<close>

fun re_search :: "(nat option \<Rightarrow> ustr \<Rightarrow> bool) \<Rightarrow> nat option \<Rightarrow> ustr \<Rightarrow> bool" where
  "re_search m prev [] = m prev []"
| "re_search m prev (c # s) = (m prev (c # s) \<or> re_search m (Some c) s)"

definition word_before :: "unicode \<Rightarrow> nat option \<Rightarrow> bool" where
  "word_before uc prev = (case prev of None \<Rightarrow> False | Some c \<Rightarrow> is_word uc c)"

definition word_next :: "unicode \<Rightarrow> ustr \<Rightarrow> bool" where
  "word_next uc s = (case s of [] \<Rightarrow> False | c # _ \<Rightarrow> is_word uc c)"

text \<open>
  The pattern of \<^verbatim>\<open>contains_multiplication_phrase\<close> is
  \<^verbatim>\<open>(?:\d\s*)+x|x\s*(?:\d\s*)+\<close>. The strings that \<^verbatim>\<open>(?:\d\s*)+\<close> matches are a digit
  followed by any digits and white space. So the first branch matches at a position
  that holds a digit, then digits and white space, then an \<open>x\<close>; the second branch
  matches at an \<open>x\<close> followed by white space and then a digit.
\<close>

fun run_then_x :: "unicode \<Rightarrow> ustr \<Rightarrow> bool" where
  "run_then_x uc [] = False"
| "run_then_x uc (c # r) =
     (c = cp CHR ''x'' \<or> ((is_digit uc c \<or> is_space uc c) \<and> run_then_x uc r))"

definition digits_then_x :: "unicode \<Rightarrow> ustr \<Rightarrow> bool" where
  "digits_then_x uc s = (case s of [] \<Rightarrow> False | d # r \<Rightarrow> is_digit uc d \<and> run_then_x uc r)"

fun spaces_then_digit :: "unicode \<Rightarrow> ustr \<Rightarrow> bool" where
  "spaces_then_digit uc [] = False"
| "spaces_then_digit uc (c # r) = (is_digit uc c \<or> (is_space uc c \<and> spaces_then_digit uc r))"

definition x_then_digits :: "unicode \<Rightarrow> ustr \<Rightarrow> bool" where
  "x_then_digits uc s = (case s of [] \<Rightarrow> False | x # r \<Rightarrow>
     x = cp CHR ''x'' \<and> spaces_then_digit uc r)"

definition contains_multiplication_phrase :: "unicode \<Rightarrow> ustr \<Rightarrow> bool" where
  "contains_multiplication_phrase uc text0 =
     re_search (\<lambda>prev s. digits_then_x uc s \<or> x_then_digits uc s) None (lower uc text0)"

text \<open>
  A filter trigger \<open>t\<close> is searched with \<^verbatim>\<open>(?<!\w)/?t(_\w+)?(?!\w)\<close>, \<open>t\<close> escaped, so
  literal. After \<open>t\<close> the optional group and the look-ahead accept the rest when no word
  character follows, or when an underscore and at least one more word character follow
  (the group then takes the whole run of word characters).
\<close>

definition trigger_tail :: "unicode \<Rightarrow> ustr \<Rightarrow> bool" where
  "trigger_tail uc s = (if word_next uc s
     then (case s of c # d # _ \<Rightarrow> c = cp CHR ''_'' \<and> is_word uc d | _ \<Rightarrow> False)
     else True)"

definition trigger_body :: "unicode \<Rightarrow> ustr \<Rightarrow> ustr \<Rightarrow> bool" where
  "trigger_body uc t s = (prefix t s \<and> trigger_tail uc (drop (length t) s))"

definition trigger_at :: "unicode \<Rightarrow> ustr \<Rightarrow> nat option \<Rightarrow> ustr \<Rightarrow> bool" where
  "trigger_at uc t prev s = (if word_before uc prev then False
     else (case s of [] \<Rightarrow> trigger_body uc t []
           | c # r \<Rightarrow> (c = cp CHR ''/'' \<and> trigger_body uc t r) \<or> trigger_body uc t s))"

definition trigger_matches :: "unicode \<Rightarrow> ustr \<Rightarrow> ustr \<Rightarrow> bool" where
  "trigger_matches uc trigger message_text =
     re_search (trigger_at uc (lower uc (strip uc trigger))) None message_text"

text \<open>
  A block phrase \<open>p\<close> is searched with \<^verbatim>\<open>\bp\b\<close>, \<open>p\<close> escaped. \<^verbatim>\<open>\b\<close> holds at a
  position where exactly one of the characters before and after it is a word character.
\<close>

definition boundary :: "unicode \<Rightarrow> nat option \<Rightarrow> ustr \<Rightarrow> bool" where
  "boundary uc prev s = (word_before uc prev \<noteq> word_next uc s)"

definition phrase_at :: "unicode \<Rightarrow> ustr \<Rightarrow> nat option \<Rightarrow> ustr \<Rightarrow> bool" where
  "phrase_at uc p prev s = (boundary uc prev s \<and> prefix p s \<and>
     boundary uc (if p = [] then prev else Some (last p)) (drop (length p) s))"

definition phrase_matches :: "unicode \<Rightarrow> ustr \<Rightarrow> ustr \<Rightarrow> bool" where
  "phrase_matches uc phrase message_text = re_search (phrase_at uc phrase) None message_text"

section \<open>Spam detector\<close>

text \<open>
  Times are integers counting microseconds, the resolution of \<^verbatim>\<open>datetime\<close>; the
  clock reading \<^verbatim>\<open>datetime.now(timezone.utc)\<close> of each function is an argument.
  The range of \<^verbatim>\<open>datetime\<close> (it ends with the year 9999) is not modelled. The detector
  never looks into a text, so the type \<open>'t\<close> of its keys is left open.
\<close>

definition MUTE_DURATION :: int where
  "MUTE_DURATION = 3 * 24 * 60 * 60 * 1000000"

definition SPAM_THRESHOLD :: nat where
  "SPAM_THRESHOLD = 3"

definition TIME_WINDOW :: int where
  "TIME_WINDOW = 15 * 1000000"

definition SPAM_RECORD_DURATION :: int where
  "SPAM_RECORD_DURATION = 5 * 60 * 1000000"

text \<open>
  A \<^verbatim>\<open>collections.deque\<close> of (user id, time) entries: its optional \<^verbatim>\<open>maxlen\<close> and its
  items, oldest first. \<^verbatim>\<open>append\<close> on a full bounded deque drops the leftmost item.
\<close>

datatype deque = Deque (maxlen: "nat option") (items: "(int \<times> int) list")

definition deque_append :: "deque \<Rightarrow> int \<times> int \<Rightarrow> deque" where
  "deque_append d e = (case maxlen d of
       None \<Rightarrow> Deque None (items d @ [e])
     | Some m \<Rightarrow>
         if m = 0 then d
         else if length (items d) < m then Deque (Some m) (items d @ [e])
         else Deque (Some m) (tl (items d) @ [e]))"

text \<open>
  The two module-level dictionaries. A Python dictionary keeps its keys in insertion
  order and the sweep iterates over one, so each is an association list:
  \<^const>\<open>AList.update\<close> is item assignment, \<^const>\<open>AList.delete\<close> is \<^verbatim>\<open>del\<close> and \<^verbatim>\<open>pop\<close>,
  \<^const>\<open>map_of\<close> is lookup.
\<close>

record 't spam_state =
  SPAM_TRACKER :: "('t \<times> deque) list"
  SPAM_RECORDS :: "('t \<times> int) list"

text \<open>\<^verbatim>\<open>list(set(xs))\<close>: the distinct elements of \<open>xs\<close>. Python leaves the order of a
  set unspecified; nothing below depends on the order chosen here.\<close>

definition list_of_set :: "int list \<Rightarrow> int list" where
  "list_of_set xs = remdups xs"

text \<open>
  \<^verbatim>\<open>check_for_spam(message_text, user_id)\<close>. Indexing the \<^verbatim>\<open>defaultdict\<close> at a missing
  key makes a \<^verbatim>\<open>deque(maxlen=SPAM_THRESHOLD)\<close>; the pruned window is stored back as
  \<^verbatim>\<open>deque(recent)\<close>, a deque without \<^verbatim>\<open>maxlen\<close>.
\<close>

definition check_for_spam :: "'t spam_state \<Rightarrow> 't \<Rightarrow> int \<Rightarrow> int \<Rightarrow> int list \<times> 't spam_state" where
  "check_for_spam st message_text user_id now =
     (let d0 = (case map_of (SPAM_TRACKER st) message_text of
                  None \<Rightarrow> Deque (Some SPAM_THRESHOLD) []
                | Some d \<Rightarrow> d);
          d1 = deque_append d0 (user_id, now);
          recent = filter (\<lambda>entry. now - snd entry \<le> TIME_WINDOW) (items d1);
          tracker = AList.update message_text (Deque None recent) (SPAM_TRACKER st)
      in if length recent \<ge> SPAM_THRESHOLD then
           (list_of_set (map fst recent),
            st\<lparr>SPAM_TRACKER := tracker,
               SPAM_RECORDS := AList.update message_text now (SPAM_RECORDS st)\<rparr>)
         else if (case recent of [] \<Rightarrow> False
                  | e # _ \<Rightarrow> length recent < SPAM_THRESHOLD \<and> now - snd e > TIME_WINDOW) then
           ([], st\<lparr>SPAM_TRACKER := AList.delete message_text tracker\<rparr>)
         else ([], st\<lparr>SPAM_TRACKER := tracker\<rparr>))"

text \<open>\<^verbatim>\<open>check_recent_spam(message_text)\<close>: a \<^verbatim>\<open>datetime\<close> is always truthy, so the
  result is falsy exactly when there is no record or the record is too old.\<close>

definition check_recent_spam :: "'t spam_state \<Rightarrow> 't \<Rightarrow> int \<Rightarrow> bool" where
  "check_recent_spam st message_text now =
     (case map_of (SPAM_RECORDS st) message_text of
        None \<Rightarrow> False
      | Some timestamp \<Rightarrow> now - timestamp \<le> SPAM_RECORD_DURATION)"

text \<open>\<^verbatim>\<open>cleanup_spam_records\<close>: the loop runs over a snapshot of the items and deletes
  the expired keys from the dictionary one by one.\<close>

fun cleanup_loop :: "int \<Rightarrow> ('t \<times> int) list \<Rightarrow> ('t \<times> int) list \<Rightarrow> ('t \<times> int) list" where
  "cleanup_loop now [] records = records"
| "cleanup_loop now ((message_text, timestamp) # snapshot) records =
     (if now - timestamp > SPAM_RECORD_DURATION
      then cleanup_loop now snapshot (AList.delete message_text records)
      else cleanup_loop now snapshot records)"

definition cleanup_spam_records :: "'t spam_state \<Rightarrow> int \<Rightarrow> 't spam_state" where
  "cleanup_spam_records st now =
     st\<lparr>SPAM_RECORDS := cleanup_loop now (SPAM_RECORDS st) (SPAM_RECORDS st)\<rparr>"

section \<open>Platform, updates and configuration\<close>

text \<open>
  The chat platform is an external collaborator. Every call the bot makes is recorded,
  in order, in a trace of \<open>call\<close> values; the platform decides which calls raise,
  who the administrators of a chat are, which id a sent message gets and which media
  files exist on disk. Arguments that are the same at every call site (parse mode,
  silent pinning, the permissions of a mute) are left out of the calls, and the
  \<^verbatim>\<open>print\<close> logging of the source is not modelled. The platform carries texts without
  looking into them, so calls and platform leave the type \<open>'t\<close> of texts open; the
  message handler uses them with \<^typ>\<open>ustr\<close>.

  The arguments of the calls: \<open>GetChatAdministrators chat_id\<close>,
  \<open>DeleteMessage chat_id message_id\<close>, \<open>BanChatMember chat_id user_id\<close>,
  \<open>RestrictChatMember chat_id user_id until_date\<close>, \<open>SendMessage chat_id text\<close>,
  \<open>ReplyText message_id text\<close> (\<^verbatim>\<open>message.reply_text\<close> on the message with that id),
  \<open>SendAnimation\<close>, \<open>SendPhoto\<close> and \<open>SendVideo\<close> with the chat, the media path and the
  caption, \<open>PinChatMessage chat_id message_id\<close>.
\<close>

datatype 't call =
    GetChatAdministrators int
  | DeleteMessage int int
  | BanChatMember int int
  | RestrictChatMember int int int
  | SendMessage int 't
  | ReplyText int 't
  | SendAnimation int 't "'t option"
  | SendPhoto int 't "'t option"
  | SendVideo int 't "'t option"
  | PinChatMessage int int

datatype error = AttributeError | TelegramError

record 't platform =
  raises :: "'t call \<Rightarrow> bool"
  administrators :: "int \<Rightarrow> int list"
  sent_message_id :: "int \<Rightarrow> 't \<Rightarrow> int"
  path_exists :: "'t \<Rightarrow> bool"

text \<open>The parts of an update that the handler reads. \<open>user_id\<close> is the \<^verbatim>\<open>id\<close> of the
  user, \<open>msg_text\<close> the \<^verbatim>\<open>text\<close> of the message (\<open>None\<close> when the message has none),
  \<open>effective_chat\<close> the id of the chat; an update of another kind (an edited message,
  say) has neither \<open>message\<close> nor \<open>channel_post\<close>.\<close>

record tg_user =
  user_id :: int
  first_name :: ustr
  last_name :: "ustr option"
  username :: "ustr option"

record tg_message =
  message_id :: int
  msg_text :: "ustr option"
  date :: int

record update =
  message :: "tg_message option"
  channel_post :: "tg_message option"
  effective_chat :: "int option"
  effective_user :: "tg_user option"

text \<open>One entry of \<^verbatim>\<open>filters.json\<close>; \<open>None\<close> is an absent key.\<close>

record filter_data =
  response_text :: "ustr option"
  media :: "ustr option"
  media_type :: "ustr option"

text \<open>The tables loaded at start-up: the filters in the order of the file, and the four
  phrase lists.\<close>

record config =
  FILTERS :: "(ustr \<times> filter_data) list"
  BAN_PHRASES :: "ustr list"
  MUTE_PHRASES :: "ustr list"
  DELETE_PHRASES :: "ustr list"
  WHITELIST_PHRASES :: "ustr list"

definition MEDIA_FOLDER :: ustr where
  "MEDIA_FOLDER = ascii ''media''"

text \<open>The list as Python reads it: \<^verbatim>\<open>"arc agent" "arch_agent"\<close> has no comma and is one
  string.\<close>

definition SUSPICIOUS_USERNAMES :: "ustr list" where
  "SUSPICIOUS_USERNAMES = map ascii
     [''dev'', ''developer'', ''admin'', ''mod'', ''owner'', ''arc'', ''arc_agent'',
      ''arc agentarch_agent'', ''arch agent'', ''support'', ''helpdesk'', ''administrator'',
      ''arc admin'', ''arc_admin'']"

text \<open>What running a handler gives: the exception that left it (if any), the calls it
  made and the spam detector's state afterwards.\<close>

record 't outcome =
  raised :: "error option"
  calls :: "'t call list"
  spam :: "'t spam_state"

definition finish :: "'t call list \<Rightarrow> 't spam_state \<Rightarrow> 't outcome" where
  "finish tr st = \<lparr>raised = None, calls = tr, spam = st\<rparr>"

definition failure :: "error \<Rightarrow> 't call list \<Rightarrow> 't spam_state \<Rightarrow> 't outcome" where
  "failure e tr st = \<lparr>raised = Some e, calls = tr, spam = st\<rparr>"

text \<open>A straight run of platform calls followed by \<^verbatim>\<open>return\<close>: the first call that
  raises ends the handler with its exception.\<close>

fun run_calls :: "'t platform \<Rightarrow> 't call list \<Rightarrow> 't call list \<Rightarrow> 't spam_state \<Rightarrow> 't outcome" where
  "run_calls tbot [] tr st = finish tr st"
| "run_calls tbot (c # cs) tr st =
     (if raises tbot c then failure TelegramError (tr @ [c]) st
      else run_calls tbot cs (tr @ [c]) st)"

section \<open>Classification pipeline\<close>

text \<open>\<^verbatim>\<open>s or None\<close>, and the truth value of a string that may be absent.\<close>

definition nonempty :: "ustr option \<Rightarrow> ustr option" where
  "nonempty s = (case s of None \<Rightarrow> None | Some t \<Rightarrow> if t = [] then None else Some t)"

definition path_join :: "ustr \<Rightarrow> ustr \<Rightarrow> ustr" where
  "path_join folder name = (case name of
       [] \<Rightarrow> folder @ ascii ''/''
     | c # _ \<Rightarrow> if c = cp CHR ''/'' then name else folder @ ascii ''/'' @ name)"

text \<open>\<^verbatim>\<open>User.full_name\<close> of the client library.\<close>

definition full_name :: "tg_user \<Rightarrow> ustr" where
  "full_name u = (case nonempty (last_name u) of
       None \<Rightarrow> first_name u
     | Some l \<Rightarrow> first_name u @ ascii '' '' @ l)"

definition name_username :: "unicode \<Rightarrow> tg_user \<Rightarrow> ustr" where
  "name_username uc u =
     lower uc (full_name u @ ascii '' '' @ (case username u of None \<Rightarrow> [] | Some n \<Rightarrow> n))"

definition suspicious_name :: "unicode \<Rightarrow> tg_user \<Rightarrow> bool" where
  "suspicious_name uc u =
     list_ex (\<lambda>keyword. contains keyword (name_username uc u)) SUSPICIOUS_USERNAMES"

text \<open>The media kind of a filter: \<^verbatim>\<open>filter_data.get("type", "gif").lower()\<close>.\<close>

definition media_kind :: "unicode \<Rightarrow> filter_data \<Rightarrow> ustr" where
  "media_kind uc fd = lower uc (case media_type fd of None \<Rightarrow> ascii ''gif'' | Some k \<Rightarrow> k)"

text \<open>The body run for a matching filter: at most one call. A media file that exists is
  taken to open.\<close>

definition filter_calls ::
  "unicode \<Rightarrow> ustr platform \<Rightarrow> int \<Rightarrow> tg_message \<Rightarrow> filter_data \<Rightarrow> ustr call list" where
  "filter_calls uc tbot chat_id msg fd =
     (let caption = nonempty (response_text fd);
          kind = media_kind uc fd;
          reply = (case caption of None \<Rightarrow> [] | Some r \<Rightarrow> [ReplyText (message_id msg) r])
      in case nonempty (media fd) of
           None \<Rightarrow> reply
         | Some media_file \<Rightarrow>
             let media_path = path_join MEDIA_FOLDER media_file in
             if path_exists tbot media_path then
               (if kind = ascii ''gif'' \<or> kind = ascii ''animation''
                  then [SendAnimation chat_id media_path caption]
                else if kind = ascii ''image'' then [SendPhoto chat_id media_path caption]
                else if kind = ascii ''video'' then [SendVideo chat_id media_path caption]
                else [])
             else reply)"

text \<open>Filter responses: the first trigger that matches answers, and the handler
  returns.\<close>

fun filter_responses ::
  "unicode \<Rightarrow> ustr platform \<Rightarrow> int \<Rightarrow> tg_message \<Rightarrow> ustr \<Rightarrow> (ustr \<times> filter_data) list \<Rightarrow>
     ustr call list \<Rightarrow> ustr spam_state \<Rightarrow> ustr outcome" where
  "filter_responses uc tbot chat_id msg message_text [] tr st = finish tr st"
| "filter_responses uc tbot chat_id msg message_text ((trigger, fd) # rest) tr st =
     (if trigger_matches uc trigger message_text
      then run_calls tbot (filter_calls uc tbot chat_id msg fd) tr st
      else filter_responses uc tbot chat_id msg message_text rest tr st)"

text \<open>The texts of the three notices (f-strings of the source).\<close>

definition ban_notice :: "tg_user \<Rightarrow> ustr" where
  "ban_notice user = ascii ''arc angel fallen. '' @ first_name user @ ascii '' has been banned.''"

definition mute_notice :: "tg_user \<Rightarrow> ustr" where
  "mute_notice user = first_name user @ ascii '' has been muted for 3 days.''"

definition spam_mute_notice :: "int \<Rightarrow> ustr" where
  "spam_mute_notice spammer_id =
     ascii (''User '' @ str_int spammer_id @ '' has been muted for 3 days.'')"

text \<open>The ban, mute and delete phrase loops, then the filter responses.\<close>

definition block_phrases ::
  "unicode \<Rightarrow> config \<Rightarrow> ustr platform \<Rightarrow> int \<Rightarrow> tg_user \<Rightarrow> tg_message \<Rightarrow> ustr \<Rightarrow>
     ustr call list \<Rightarrow> ustr spam_state \<Rightarrow> ustr outcome" where
  "block_phrases uc cfg tbot chat_id user msg message_text tr st =
     (if list_ex (\<lambda>phrase. phrase_matches uc phrase message_text) (BAN_PHRASES cfg) then
        run_calls tbot
          [BanChatMember chat_id (user_id user),
           ReplyText (message_id msg) (ban_notice user)]
          tr st
      else if list_ex (\<lambda>phrase. phrase_matches uc phrase message_text) (MUTE_PHRASES cfg) then
        run_calls tbot
          [RestrictChatMember chat_id (user_id user) (date msg + MUTE_DURATION),
           ReplyText (message_id msg) (mute_notice user)]
          tr st
      else if list_ex (\<lambda>phrase. phrase_matches uc phrase message_text) (DELETE_PHRASES cfg) then
        run_calls tbot [DeleteMessage chat_id (message_id msg)] tr st
      else filter_responses uc tbot chat_id msg message_text (FILTERS cfg) tr st)"

text \<open>The mute loop: a failure of either call is caught and the loop goes on with the
  next sender.\<close>

fun mute_spammers ::
  "ustr platform \<Rightarrow> int \<Rightarrow> int \<Rightarrow> int list \<Rightarrow> ustr call list \<Rightarrow> ustr call list" where
  "mute_spammers tbot chat_id until_date [] tr = tr"
| "mute_spammers tbot chat_id until_date (spammer_id # ids) tr =
     (if raises tbot (RestrictChatMember chat_id spammer_id until_date)
      then mute_spammers tbot chat_id until_date ids
             (tr @ [RestrictChatMember chat_id spammer_id until_date])
      else mute_spammers tbot chat_id until_date ids
             (tr @ [RestrictChatMember chat_id spammer_id until_date,
                    SendMessage chat_id (spam_mute_notice spammer_id)]))"

definition matches_filter :: "unicode \<Rightarrow> config \<Rightarrow> ustr \<Rightarrow> bool" where
  "matches_filter uc cfg message_text =
     list_ex (\<lambda>entry. trigger_matches uc (fst entry) message_text) (FILTERS cfg)"

definition should_skip_spam_check :: "unicode \<Rightarrow> config \<Rightarrow> ustr \<Rightarrow> bool" where
  "should_skip_spam_check uc cfg message_text =
     (matches_filter uc cfg message_text \<or> strip uc message_text \<in> set (WHITELIST_PHRASES cfg))"

text \<open>Step 3 of the autospam block: the two clock readings are those of
  \<^verbatim>\<open>check_for_spam\<close> and of \<^verbatim>\<open>check_recent_spam\<close>.\<close>

definition spam_check ::
  "unicode \<Rightarrow> config \<Rightarrow> ustr platform \<Rightarrow> int \<Rightarrow> int \<Rightarrow> int \<Rightarrow> tg_user \<Rightarrow> tg_message \<Rightarrow> ustr \<Rightarrow>
     ustr call list \<Rightarrow> ustr spam_state \<Rightarrow> ustr outcome" where
  "spam_check uc cfg tbot now_spam now_recent chat_id user msg message_text tr st =
     (let (flagged, st1) = check_for_spam st message_text (user_id user) now_spam;
          spammer_ids =
            (if check_recent_spam st1 message_text now_recent \<and> user_id user \<notin> set flagged
             then flagged @ [user_id user] else flagged)
      in if spammer_ids \<noteq> [] then
           finish (mute_spammers tbot chat_id (date msg + MUTE_DURATION) (list_of_set spammer_ids) tr) st1
         else block_phrases uc cfg tbot chat_id user msg message_text tr st1)"

definition check_message ::
  "unicode \<Rightarrow> config \<Rightarrow> ustr platform \<Rightarrow> int \<Rightarrow> int \<Rightarrow> ustr spam_state \<Rightarrow> update \<Rightarrow>
     ustr outcome" where
  "check_message uc cfg tbot now_spam now_recent st upd =
     (case effective_chat upd of None \<Rightarrow> failure AttributeError [] st | Some chat_id \<Rightarrow>
      case effective_user upd of None \<Rightarrow> failure AttributeError [] st | Some user \<Rightarrow>
      case (case message upd of None \<Rightarrow> channel_post upd | Some m \<Rightarrow> Some m) of
        None \<Rightarrow> failure AttributeError [] st | Some msg \<Rightarrow>
      case msg_text msg of None \<Rightarrow> failure AttributeError [] st | Some raw \<Rightarrow>
        let message_text = lower uc raw;
            tr = [GetChatAdministrators chat_id]
        in if raises tbot (GetChatAdministrators chat_id) then failure TelegramError tr st
           else if raw = [] then finish tr st
           else if user_id user \<notin> set (administrators tbot chat_id) then
             (if length (strip uc message_text) < 2 then
                run_calls tbot [DeleteMessage chat_id (message_id msg)] tr st
              else if suspicious_name uc user then
                run_calls tbot [BanChatMember chat_id (user_id user)] tr st
              else if contains_multiplication_phrase uc message_text then
                run_calls tbot [DeleteMessage chat_id (message_id msg)] tr st
              else if should_skip_spam_check uc cfg message_text then
                block_phrases uc cfg tbot chat_id user msg message_text tr st
              else spam_check uc cfg tbot now_spam now_recent chat_id user msg message_text tr st)
           else filter_responses uc tbot chat_id msg message_text (FILTERS cfg) tr st)"

section \<open>Scheduled broadcaster\<close>

text \<open>\<^verbatim>\<open>post_brand_assets\<close>: the group chat and the message sequence come from the
  environment and from a module outside this file, so they are arguments. The loop has
  no exception handler.\<close>

fun post_brand_assets ::
  "'t platform \<Rightarrow> int \<Rightarrow> 't list \<Rightarrow> 't call list \<Rightarrow> error option \<times> 't call list" where
  "post_brand_assets tbot GROUP_CHAT_ID [] tr = (None, tr)"
| "post_brand_assets tbot GROUP_CHAT_ID (m # ms) tr =
     (if raises tbot (SendMessage GROUP_CHAT_ID m) then (Some TelegramError, tr @ [SendMessage GROUP_CHAT_ID m])
      else if raises tbot (PinChatMessage GROUP_CHAT_ID (sent_message_id tbot GROUP_CHAT_ID m)) then
        (Some TelegramError, tr @ [SendMessage GROUP_CHAT_ID m, PinChatMessage GROUP_CHAT_ID (sent_message_id tbot GROUP_CHAT_ID m)])
      else post_brand_assets tbot GROUP_CHAT_ID ms
             (tr @ [SendMessage GROUP_CHAT_ID m, PinChatMessage GROUP_CHAT_ID (sent_message_id tbot GROUP_CHAT_ID m)]))"

section \<open>Vocabulary of the properties\<close>

text \<open>The users for whom a mute (\<^verbatim>\<open>restrict_chat_member\<close>) was attempted, in the order
  of the calls; the calls that are moderation actions; the calls that are plain
  \<^verbatim>\<open>send_message\<close> calls (the pipeline makes them only to confirm a spam mute).\<close>

fun restricted :: "'t call \<Rightarrow> int option" where
  "restricted (RestrictChatMember chat_id uid until_date) = Some uid"
| "restricted c = None"

definition muted_users :: "'t call list \<Rightarrow> int list" where
  "muted_users tr = List.map_filter restricted tr"

fun is_moderation :: "'t call \<Rightarrow> bool" where
  "is_moderation (DeleteMessage chat_id mid) = True"
| "is_moderation (BanChatMember chat_id uid) = True"
| "is_moderation (RestrictChatMember chat_id uid until_date) = True"
| "is_moderation c = False"

fun is_send_message :: "'t call \<Rightarrow> bool" where
  "is_send_message (SendMessage chat_id t) = True"
| "is_send_message c = False"

text \<open>The states the detector can be in: each dictionary has each key once, and every
  stored window is a deque without bound (the only kind \<^verbatim>\<open>check_for_spam\<close> stores).\<close>

definition valid_state :: "'t spam_state \<Rightarrow> bool" where
  "valid_state st =
     (distinct (map fst (SPAM_TRACKER st)) \<and> distinct (map fst (SPAM_RECORDS st)) \<and>
      list_all (\<lambda>entry. maxlen (snd entry) = None) (SPAM_TRACKER st))"

text \<open>The pruned window (\<^verbatim>\<open>recent\<close>) that a call of \<^verbatim>\<open>check_for_spam\<close> computes and
  stores for its text.\<close>

definition pruned_window :: "'t spam_state \<Rightarrow> 't \<Rightarrow> int \<Rightarrow> int \<Rightarrow> (int \<times> int) list" where
  "pruned_window st message_text uid now =
     filter (\<lambda>entry. now - snd entry \<le> TIME_WINDOW)
       (items (deque_append
          (case map_of (SPAM_TRACKER st) message_text of
             None \<Rightarrow> Deque (Some SPAM_THRESHOLD) [] | Some d \<Rightarrow> d)
          (uid, now)))"

section \<open>Properties of the spam detector\<close>

text \<open>What the sweep loop leaves of a dictionary: every key that has an expired entry in
  the snapshot is gone.\<close>

lemma cleanup_loop_filter:
  "cleanup_loop now snapshot records =
     filter (\<lambda>(k, ts). k \<notin> fst ` {e \<in> set snapshot. now - snd e > SPAM_RECORD_DURATION}) records"
proof (induction snapshot arbitrary: records)
  case Nil
  then show ?case by simp
next
  case (Cons e snapshot)
  obtain k ts where e: "e = (k, ts)" by (cases e)
  show ?case
  proof (cases "now - ts > SPAM_RECORD_DURATION")
    case True
    have "{x \<in> set (e # snapshot). now - snd x > SPAM_RECORD_DURATION}
        = insert (k, ts) {x \<in> set snapshot. now - snd x > SPAM_RECORD_DURATION}"
      using True e by auto
    then show ?thesis
      using True e Cons.IH [of "AList.delete k records"]
      by (simp add: AList.delete_eq) (rule filter_cong, auto)
  next
    case False
    have "{x \<in> set (e # snapshot). now - snd x > SPAM_RECORD_DURATION}
        = {x \<in> set snapshot. now - snd x > SPAM_RECORD_DURATION}"
      using False e by auto
    then show ?thesis
      using False e Cons.IH [of records] by simp
  qed
qed

lemma cleanup_loop_self:
  assumes "distinct (map fst records)"
  shows "cleanup_loop now records records =
     filter (\<lambda>(k, ts). now - ts \<le> SPAM_RECORD_DURATION) records"
proof -
  have "\<And>k ts. (k, ts) \<in> set records \<Longrightarrow>
      (k \<notin> fst ` {e \<in> set records. now - snd e > SPAM_RECORD_DURATION}) = (now - ts \<le> SPAM_RECORD_DURATION)"
  proof -
    fix k ts assume in_r: "(k, ts) \<in> set records"
    have uniq: "\<And>ts'. (k, ts') \<in> set records \<Longrightarrow> ts' = ts"
      using assms in_r by (meson eq_key_imp_eq_value)
    show "(k \<notin> fst ` {e \<in> set records. now - snd e > SPAM_RECORD_DURATION}) = (now - ts \<le> SPAM_RECORD_DURATION)"
    proof
      assume "k \<notin> fst ` {e \<in> set records. now - snd e > SPAM_RECORD_DURATION}"
      then have "\<not> now - ts > SPAM_RECORD_DURATION" using in_r by force
      then show "now - ts \<le> SPAM_RECORD_DURATION" by simp
    next
      assume le: "now - ts \<le> SPAM_RECORD_DURATION"
      show "k \<notin> fst ` {e \<in> set records. now - snd e > SPAM_RECORD_DURATION}"
      proof
        assume "k \<in> fst ` {e \<in> set records. now - snd e > SPAM_RECORD_DURATION}"
        then obtain ts' where "(k, ts') \<in> set records" "now - ts' > SPAM_RECORD_DURATION" by auto
        with uniq le show False by auto
      qed
    qed
  qed
  then show ?thesis
    unfolding cleanup_loop_filter by (intro filter_cong refl) auto
qed

lemma list_all_update:
  "list_all P al \<Longrightarrow> P (k, v) \<Longrightarrow> list_all P (AList.update k v al)"
  by (induction al) auto

lemma list_all_delete:
  "list_all P al \<Longrightarrow> list_all P (AList.delete k al)"
  by (induction al) auto

lemma valid_state_initial: "valid_state \<lparr>SPAM_TRACKER = [], SPAM_RECORDS = []\<rparr>"
  by (simp add: valid_state_def)

text \<open>The clean-up branch of \<^verbatim>\<open>check_for_spam\<close> tests the age of the first entry of
  a list that has just been filtered by age, so it is never taken: the function is the
  two-way choice below, and the key of the text is always present afterwards.\<close>

lemma pruned_window_recent:
  "e \<in> set (pruned_window st message_text uid now) \<Longrightarrow> now - snd e \<le> TIME_WINDOW"
  by (simp add: pruned_window_def)

lemma check_for_spam_unfold:
  "check_for_spam st message_text uid now =
     (if length (pruned_window st message_text uid now) \<ge> SPAM_THRESHOLD then
        (list_of_set (map fst (pruned_window st message_text uid now)),
         st\<lparr>SPAM_TRACKER := AList.update message_text
                (Deque None (pruned_window st message_text uid now)) (SPAM_TRACKER st),
            SPAM_RECORDS := AList.update message_text now (SPAM_RECORDS st)\<rparr>)
      else
        ([], st\<lparr>SPAM_TRACKER := AList.update message_text
                (Deque None (pruned_window st message_text uid now)) (SPAM_TRACKER st)\<rparr>))"
proof -
  have dead: "\<not> (case pruned_window st message_text uid now of [] \<Rightarrow> False
          | e # _ \<Rightarrow> length (pruned_window st message_text uid now) < SPAM_THRESHOLD
                     \<and> now - snd e > TIME_WINDOW)"
  proof (cases "pruned_window st message_text uid now")
    case Nil
    then show ?thesis by simp
  next
    case (Cons e es)
    then have "now - snd e \<le> TIME_WINDOW"
      using pruned_window_recent [of e st message_text uid now] by simp
    then show ?thesis using Cons by simp
  qed
  show ?thesis
    using dead unfolding check_for_spam_def pruned_window_def Let_def by simp
qed

lemma check_for_spam_keeps_key:
  "map_of (SPAM_TRACKER (snd (check_for_spam st message_text uid now))) message_text =
     Some (Deque None (pruned_window st message_text uid now))"
  by (simp add: check_for_spam_unfold update_conv')

lemma check_for_spam_valid:
  assumes "valid_state st"
  shows "valid_state (snd (check_for_spam st message_text uid now))"
  using assms
  by (simp add: check_for_spam_unfold valid_state_def distinct_update list_all_update)

lemma cleanup_spam_records_valid:
  assumes "valid_state st"
  shows "valid_state (cleanup_spam_records st now)"
  using assms
  by (simp add: cleanup_spam_records_def valid_state_def cleanup_loop_filter distinct_map_filter)

lemma sender_in_pruned_window:
  assumes "valid_state st"
  shows "(uid, now) \<in> set (pruned_window st message_text uid now)"
proof -
  have "maxlen (case map_of (SPAM_TRACKER st) message_text of
             None \<Rightarrow> Deque (Some SPAM_THRESHOLD) [] | Some d \<Rightarrow> d) \<noteq> Some 0"
  proof (cases "map_of (SPAM_TRACKER st) message_text")
    case None
    then show ?thesis by (simp add: SPAM_THRESHOLD_def)
  next
    case (Some d)
    then have "(message_text, d) \<in> set (SPAM_TRACKER st)" by (rule map_of_SomeD)
    then have "maxlen d = None"
      using assms by (auto simp: valid_state_def list_all_iff)
    then show ?thesis using Some by simp
  qed
  then show ?thesis
    by (auto simp: pruned_window_def deque_append_def TIME_WINDOW_def split: option.splits)
qed

text \<open>
  Claim C6. \<^verbatim>\<open>check_recent_spam\<close> is true exactly when the text has a flag record
  whose age is at most the retention period; \<^verbatim>\<open>cleanup_spam_records\<close> keeps exactly
  the records whose age does not exceed the retention period, in their order, and
  leaves the window dictionary as it was. The dictionary of records has each key once.
\<close>

theorem flag_lookup_and_sweep:
  assumes "distinct (map fst (SPAM_RECORDS st))"
  shows "(check_recent_spam st message_text now \<longleftrightarrow>
            (\<exists>ts. map_of (SPAM_RECORDS st) message_text = Some ts \<and> now - ts \<le> SPAM_RECORD_DURATION))
       \<and> SPAM_RECORDS (cleanup_spam_records st sweep_time) =
            filter (\<lambda>(k, ts). \<not> sweep_time - ts > SPAM_RECORD_DURATION) (SPAM_RECORDS st)
       \<and> SPAM_TRACKER (cleanup_spam_records st sweep_time) = SPAM_TRACKER st"
proof -
  have a: "check_recent_spam st message_text now \<longleftrightarrow>
            (\<exists>ts. map_of (SPAM_RECORDS st) message_text = Some ts \<and> now - ts \<le> SPAM_RECORD_DURATION)"
    by (simp add: check_recent_spam_def split: option.splits)
  have b: "SPAM_RECORDS (cleanup_spam_records st sweep_time) =
            filter (\<lambda>(k, ts). \<not> sweep_time - ts > SPAM_RECORD_DURATION) (SPAM_RECORDS st)"
    using cleanup_loop_self [OF assms, of sweep_time]
    by (simp add: cleanup_spam_records_def not_less)
  have c: "SPAM_TRACKER (cleanup_spam_records st sweep_time) = SPAM_TRACKER st"
    by (simp add: cleanup_spam_records_def)
  from a b c show ?thesis by blast
qed

theorem flag_lookup_and_sweep_witness:
  "distinct (map fst [(''gm'', 0 :: int), (''hi'', 200000000)])
   \<and> check_recent_spam \<lparr>SPAM_TRACKER = [(''gm'', Deque None [(1, 0)])],
                          SPAM_RECORDS = [(''gm'', 0), (''hi'', 200000000)]\<rparr> ''hi'' 400000000
   \<and> \<not> check_recent_spam \<lparr>SPAM_TRACKER = [(''gm'', Deque None [(1, 0)])],
                          SPAM_RECORDS = [(''gm'', 0), (''hi'', 200000000)]\<rparr> ''gm'' 400000000
   \<and> cleanup_spam_records \<lparr>SPAM_TRACKER = [(''gm'', Deque None [(1, 0)])],
                           SPAM_RECORDS = [(''gm'', 0), (''hi'', 200000000)]\<rparr> 400000000
       = \<lparr>SPAM_TRACKER = [(''gm'', Deque None [(1, 0)])], SPAM_RECORDS = [(''hi'', 200000000)]\<rparr>"
proof -
  let ?st = "\<lparr>SPAM_TRACKER = [(''gm'', Deque None [(1, 0)])],
              SPAM_RECORDS = [(''gm'', 0), (''hi'', 200000000)]\<rparr>"
  have d: "distinct (map fst (SPAM_RECORDS ?st))" by simp
  have hi: "check_recent_spam ?st ''hi'' 400000000"
    using flag_lookup_and_sweep [OF d, of "''hi''" 400000000 400000000]
    by (simp add: SPAM_RECORD_DURATION_def)
  have gm: "\<not> check_recent_spam ?st ''gm'' 400000000"
    using flag_lookup_and_sweep [OF d, of "''gm''" 400000000 400000000]
    by (simp add: SPAM_RECORD_DURATION_def)
  have sw: "cleanup_spam_records ?st 400000000
       = \<lparr>SPAM_TRACKER = [(''gm'', Deque None [(1, 0)])], SPAM_RECORDS = [(''hi'', 200000000)]\<rparr>"
    using flag_lookup_and_sweep [OF d, of "''gm''" 400000000 400000000]
    by (simp add: SPAM_RECORD_DURATION_def cleanup_spam_records_def)
  from d hi gm sw show ?thesis by simp
qed

text \<open>
  Claim C3, evaluated on the code. Four senders post the same text one second apart,
  starting from the empty state. The first call stores the pruned window as a deque
  without bound, so the fourth observation evicts nothing and the window holds four
  entries, one more than \<^const>\<open>SPAM_THRESHOLD\<close>.
\<close>

theorem spam_window_exceeds_threshold:
  "(let s0 = \<lparr>SPAM_TRACKER = [], SPAM_RECORDS = []\<rparr>;
        s1 = snd (check_for_spam s0 ''gm'' 1 0);
        s2 = snd (check_for_spam s1 ''gm'' 2 1000000);
        s3 = snd (check_for_spam s2 ''gm'' 3 2000000);
        s4 = snd (check_for_spam s3 ''gm'' 4 3000000)
    in map_of (SPAM_TRACKER s4) ''gm'') =
      Some (Deque None [(1, 0), (2, 1000000), (3, 2000000), (4, 3000000)])
   \<and> SPAM_THRESHOLD = 3"
  by code_simp

text \<open>
  Claim C4, evaluated on the code. Two senders (fewer than the threshold of three) post
  the same text sixteen seconds apart, further than the time window. Neither call flags
  anyone, and after the second call the key is still in the window dictionary, holding
  the latest observation.
\<close>

theorem dead_key_not_evicted:
  "(let s0 = \<lparr>SPAM_TRACKER = [], SPAM_RECORDS = []\<rparr>;
        (flagged1, s1) = check_for_spam s0 ''gm'' 1 0;
        (flagged2, s2) = check_for_spam s1 ''gm'' 2 16000000
    in (flagged1, flagged2, map_of (SPAM_TRACKER s2) ''gm'')) =
      ([], [], Some (Deque None [(2, 16000000)]))"
  by code_simp

section \<open>Properties of the classification pipeline\<close>

text \<open>
  Claim C7, evaluated on the code. An update whose message has no text, and an update
  that has neither a message nor a channel post (an edited message): the handler reads
  \<^verbatim>\<open>message.text.lower()\<close> before its test for a missing message or text, so it ends
  with an \<^verbatim>\<open>AttributeError\<close>; it makes no call and leaves the spam state as it was.
\<close>

theorem textless_message_raises:
  "check_message uc cfg tbot now_spam now_recent st
     \<lparr>message = Some \<lparr>message_id = mid, msg_text = None, date = d\<rparr>,
      channel_post = post, effective_chat = Some chat_id, effective_user = Some user\<rparr>
   = \<lparr>raised = Some AttributeError, calls = [], spam = st\<rparr>
   \<and> check_message uc cfg tbot now_spam now_recent st
     \<lparr>message = None, channel_post = None,
      effective_chat = Some chat_id, effective_user = Some user\<rparr>
   = \<lparr>raised = Some AttributeError, calls = [], spam = st\<rparr>"
  by (simp add: check_message_def failure_def)

lemma run_calls_spam [simp]: "spam (run_calls tbot cs tr st) = st"
  by (induction cs arbitrary: tr) (simp_all add: finish_def failure_def)

lemma run_calls_state:
  "run_calls tbot cs tr st = (run_calls tbot cs tr st')\<lparr>spam := st\<rparr>"
  by (induction cs arbitrary: tr) (simp_all add: finish_def failure_def)

lemma run_calls_single [simp]: "calls (run_calls tbot [c] tr st) = tr @ [c]"
  by (simp add: finish_def failure_def)

lemma run_calls_nil [simp]: "calls (run_calls tbot [] tr st) = tr"
  by (simp add: finish_def)

lemma run_calls_prefix:
  "\<exists>k. calls (run_calls tbot cs tr st) = tr @ take k cs"
proof (induction cs arbitrary: tr)
  case Nil
  then show ?case by (simp add: finish_def)
next
  case (Cons c cs)
  show ?case
  proof (cases "raises tbot c")
    case True
    have "calls (run_calls tbot (c # cs) tr st) = tr @ take 1 (c # cs)"
      using True by (simp add: failure_def)
    then show ?thesis by blast
  next
    case False
    from Cons.IH [of "tr @ [c]"] obtain k
      where "calls (run_calls tbot cs (tr @ [c]) st) = (tr @ [c]) @ take k cs" by blast
    then have "calls (run_calls tbot (c # cs) tr st) = tr @ take (Suc k) (c # cs)"
      using False by simp
    then show ?thesis by blast
  qed
qed

lemma filter_calls_cases:
  "filter_calls uc tbot chat_id msg fd = [] \<or>
   (\<exists>c. filter_calls uc tbot chat_id msg fd = [c] \<and> \<not> is_moderation c \<and> \<not> is_send_message c)"
  by (auto simp: filter_calls_def Let_def split: option.splits)

lemma filter_responses_spam [simp]:
  "spam (filter_responses uc tbot chat_id msg message_text fs tr st) = st"
  by (induction fs) (auto simp: finish_def)

lemma filter_responses_state:
  "filter_responses uc tbot chat_id msg message_text fs tr st =
     (filter_responses uc tbot chat_id msg message_text fs tr st')\<lparr>spam := st\<rparr>"
  by (induction fs) (auto simp: finish_def run_calls_state [of _ _ _ st st'])

lemma filter_responses_find:
  "calls (filter_responses uc tbot chat_id msg message_text fs tr st) =
     tr @ (case find (\<lambda>entry. trigger_matches uc (fst entry) message_text) fs of
             None \<Rightarrow> []
           | Some entry \<Rightarrow> filter_calls uc tbot chat_id msg (snd entry))"
proof (induction fs)
  case Nil
  then show ?case by (simp add: finish_def)
next
  case (Cons f fs)
  obtain trigger fd where f: "f = (trigger, fd)" by (cases f)
  show ?case
  proof (cases "trigger_matches uc trigger message_text")
    case True
    from filter_calls_cases [of uc tbot chat_id msg fd]
    have "calls (run_calls tbot (filter_calls uc tbot chat_id msg fd) tr st)
           = tr @ filter_calls uc tbot chat_id msg fd"
      by (auto simp: finish_def failure_def)
    then show ?thesis using True f by simp
  next
    case False
    then show ?thesis using Cons.IH f by simp
  qed
qed

lemma block_phrases_spam [simp]:
  "spam (block_phrases uc cfg tbot chat_id user msg message_text tr st) = st"
  by (simp add: block_phrases_def del: run_calls.simps)

lemma block_phrases_state:
  "block_phrases uc cfg tbot chat_id user msg message_text tr st =
     (block_phrases uc cfg tbot chat_id user msg message_text tr st')\<lparr>spam := st\<rparr>"
  by (simp add: block_phrases_def run_calls_state [of _ _ _ st st']
        filter_responses_state [of _ _ _ _ _ _ _ st st'] del: run_calls.simps)

lemma run_calls_set:
  "set (calls (run_calls tbot cs tr st)) \<subseteq> set tr \<union> set cs"
proof -
  obtain k where "calls (run_calls tbot cs tr st) = tr @ take k cs"
    using run_calls_prefix by blast
  then show ?thesis using set_take_subset [of k cs] by auto
qed

lemma filter_responses_set:
  "set (calls (filter_responses uc tbot chat_id msg message_text fs tr st)) \<subseteq>
     set tr \<union> {c. \<not> is_moderation c \<and> \<not> is_send_message c}"
proof -
  have "\<And>fd. set (filter_calls uc tbot chat_id msg fd) \<subseteq> {c. \<not> is_moderation c \<and> \<not> is_send_message c}"
    using filter_calls_cases by (metis (mono_tags, lifting) empty_set empty_subsetI insert_subset list.simps(15) mem_Collect_eq)
  then show ?thesis
    unfolding filter_responses_find by (auto split: option.splits)
qed

lemma muted_users_empty_iff:
  "muted_users tr = [] \<longleftrightarrow> (\<forall>c \<in> set tr. restricted c = None)"
  by (induction tr) (auto simp: muted_users_def List.map_filter_simps split: option.splits)

lemma block_phrases_set:
  "set (calls (block_phrases uc cfg tbot chat_id user msg message_text tr st)) \<subseteq>
     set tr \<union> {c. \<not> is_moderation c \<and> \<not> is_send_message c} \<union>
     (if list_ex (\<lambda>phrase. phrase_matches uc phrase message_text) (BAN_PHRASES cfg)
        then {BanChatMember chat_id (user_id user)}
      else if list_ex (\<lambda>phrase. phrase_matches uc phrase message_text) (MUTE_PHRASES cfg)
        then {RestrictChatMember chat_id (user_id user) (date msg + MUTE_DURATION)}
      else if list_ex (\<lambda>phrase. phrase_matches uc phrase message_text) (DELETE_PHRASES cfg)
        then {DeleteMessage chat_id (message_id msg)}
      else {})"
  using run_calls_set [of tbot "[BanChatMember chat_id (user_id user),
                               ReplyText (message_id msg) (ban_notice user)]" tr st]
        run_calls_set [of tbot "[RestrictChatMember chat_id (user_id user) (date msg + MUTE_DURATION),
                               ReplyText (message_id msg) (mute_notice user)]" tr st]
        filter_responses_set [of uc tbot chat_id msg message_text "FILTERS cfg" tr st]
  by (auto simp: block_phrases_def simp del: run_calls.simps)

lemma block_phrases_no_send:
  assumes "\<forall>c \<in> set tr. \<not> is_send_message c"
  shows "\<forall>c \<in> set (calls (block_phrases uc cfg tbot chat_id user msg message_text tr st)). \<not> is_send_message c"
  using block_phrases_set [of uc cfg tbot chat_id user msg message_text tr st] assms
  by (auto split: if_splits)

lemma block_phrases_mute_only_by_phrase:
  assumes "muted_users tr = []"
      and "muted_users (calls (block_phrases uc cfg tbot chat_id user msg message_text tr st)) \<noteq> []"
  shows "list_ex (\<lambda>phrase. phrase_matches uc phrase message_text) (MUTE_PHRASES cfg)"
proof (rule ccontr)
  assume nomatch: "\<not> list_ex (\<lambda>phrase. phrase_matches uc phrase message_text) (MUTE_PHRASES cfg)"
  have tr: "\<forall>c \<in> set tr. restricted c = None"
    using assms(1) by (simp add: muted_users_empty_iff)
  have "\<And>c. \<not> is_moderation c \<Longrightarrow> restricted c = None"
    by (case_tac c) auto
  then have "\<forall>c \<in> set (calls (block_phrases uc cfg tbot chat_id user msg message_text tr st)). restricted c = None"
    using block_phrases_set [of uc cfg tbot chat_id user msg message_text tr st] tr nomatch
    by (auto split: if_splits)
  then show False using assms(2) by (simp add: muted_users_empty_iff)
qed

text \<open>
  Claim C9. A message of a non-administrator whose text matches a filter trigger never
  reaches the spam detector: the spam state (windows and flag records) comes back as it
  was, the calls made and the exception raised are the same for every spam state and
  every clock reading (so no window or flag record is read), no \<^verbatim>\<open>send_message\<close>
  confirmation of a spam mute is made, and a mute is attempted only when a mute phrase
  matches the text.
\<close>

theorem filter_match_bypasses_spam_detector:
  assumes chat: "effective_chat upd = Some chat_id"
      and usr: "effective_user upd = Some user"
      and msg: "(case message upd of None \<Rightarrow> channel_post upd | Some m \<Rightarrow> Some m) = Some msg"
      and has_text: "msg_text msg = Some raw"
      and non_admin: "user_id user \<notin> set (administrators tbot chat_id)"
      and hit: "matches_filter uc cfg (lower uc raw)"
  shows "spam (check_message uc cfg tbot now_spam now_recent st upd) = st
       \<and> calls (check_message uc cfg tbot now_spam' now_recent' st' upd) =
           calls (check_message uc cfg tbot now_spam now_recent st upd)
       \<and> raised (check_message uc cfg tbot now_spam' now_recent' st' upd) =
           raised (check_message uc cfg tbot now_spam now_recent st upd)
       \<and> list_all (\<lambda>c. \<not> is_send_message c) (calls (check_message uc cfg tbot now_spam now_recent st upd))
       \<and> (muted_users (calls (check_message uc cfg tbot now_spam now_recent st upd)) \<noteq> [] \<longrightarrow>
            list_ex (\<lambda>phrase. phrase_matches uc phrase (lower uc raw)) (MUTE_PHRASES cfg))"
proof -
  let ?tr = "[GetChatAdministrators chat_id]"
  let ?t = "lower uc raw"
  define G where "G = (\<lambda>s.
     if raises tbot (GetChatAdministrators chat_id) then failure TelegramError ?tr s
     else if raw = [] then finish ?tr s
     else if length (strip uc ?t) < 2 then run_calls tbot [DeleteMessage chat_id (message_id msg)] ?tr s
     else if suspicious_name uc user then run_calls tbot [BanChatMember chat_id (user_id user)] ?tr s
     else if contains_multiplication_phrase uc ?t then run_calls tbot [DeleteMessage chat_id (message_id msg)] ?tr s
     else block_phrases uc cfg tbot chat_id user msg ?t ?tr s)"
  have eq: "\<And>n1 n2 s. check_message uc cfg tbot n1 n2 s upd = G s"
    using assms
    by (simp add: check_message_def G_def should_skip_spam_check_def Let_def del: run_calls.simps)
  have sp: "spam (G st) = st"
    by (simp add: G_def finish_def failure_def del: run_calls.simps)
  have indep: "G st' = (G st)\<lparr>spam := st'\<rparr>"
    by (simp add: G_def finish_def failure_def run_calls_state [of _ _ _ st' st]
          block_phrases_state [of _ _ _ _ _ _ _ _ st' st] del: run_calls.simps)
  have tr_send: "\<forall>c \<in> set ?tr. \<not> is_send_message c" by simp
  have no_send: "\<forall>c \<in> set (calls (G st)). \<not> is_send_message c"
    using block_phrases_no_send [OF tr_send, of uc cfg tbot chat_id user msg ?t st]
    by (simp add: G_def finish_def failure_def)
  have tr_mute: "muted_users ?tr = []" by (simp add: muted_users_def List.map_filter_simps)
  have mute: "muted_users (calls (G st)) \<noteq> [] \<Longrightarrow>
                list_ex (\<lambda>phrase. phrase_matches uc phrase ?t) (MUTE_PHRASES cfg)"
    using block_phrases_mute_only_by_phrase [OF tr_mute, of uc cfg tbot chat_id user msg ?t st]
    by (auto simp: G_def finish_def failure_def muted_users_def List.map_filter_simps split: if_splits)
  have c: "calls (G st') = calls (G st)" and r: "raised (G st') = raised (G st)"
    by (simp_all add: indep)
  show ?thesis
    using sp c r no_send mute by (simp add: eq list_all_iff)
qed

text \<open>An instance: the text matches the trigger \<open>rules\<close> while two other senders have the
  same text in the window and it has a flag record; the sender gets the reply only.\<close>

theorem filter_match_bypasses_spam_detector_witness:
  "(let cfg = \<lparr>FILTERS = [(ascii ''rules'',
                            \<lparr>response_text = Some (ascii ''See pinned message.''), media = None,
                             media_type = None\<rparr>)],
               BAN_PHRASES = [], MUTE_PHRASES = [], DELETE_PHRASES = [], WHITELIST_PHRASES = []\<rparr>;
        tbot = \<lparr>raises = (\<lambda>c. False), administrators = (\<lambda>chat_id. [1]),
                sent_message_id = (\<lambda>chat_id t. 100), path_exists = (\<lambda>p. False)\<rparr>;
        st = \<lparr>SPAM_TRACKER = [(ascii ''/rules'', Deque None [(8, 0), (9, 1000000)])],
              SPAM_RECORDS = [(ascii ''/rules'', 0)]\<rparr>;
        user = \<lparr>user_id = 42, first_name = ascii ''bob'', last_name = None, username = None\<rparr>;
        upd = \<lparr>message = Some \<lparr>message_id = 5, msg_text = Some (ascii ''/Rules''), date = 2000000\<rparr>,
               channel_post = None, effective_chat = Some 7, effective_user = Some user\<rparr>;
        out = check_message ascii_tables cfg tbot 2000000 2000001 st upd
    in user_id user \<notin> set (administrators tbot 7)
       \<and> matches_filter ascii_tables cfg (lower ascii_tables (ascii ''/Rules''))
       \<and> spam out = st
       \<and> calls out = [GetChatAdministrators 7, ReplyText 5 (ascii ''See pinned message.'')])"
proof -
  let ?cfg = "\<lparr>FILTERS = [(ascii ''rules'',
                            \<lparr>response_text = Some (ascii ''See pinned message.''), media = None,
                             media_type = None\<rparr>)],
               BAN_PHRASES = [], MUTE_PHRASES = [], DELETE_PHRASES = [], WHITELIST_PHRASES = []\<rparr>"
  let ?tbot = "\<lparr>raises = (\<lambda>c. False), administrators = (\<lambda>chat_id. [1]),
                sent_message_id = (\<lambda>chat_id t. 100), path_exists = (\<lambda>p. False)\<rparr>
               :: ustr platform"
  let ?st = "\<lparr>SPAM_TRACKER = [(ascii ''/rules'', Deque None [(8, 0), (9, 1000000)])],
              SPAM_RECORDS = [(ascii ''/rules'', 0)]\<rparr>"
  let ?user = "\<lparr>user_id = 42, first_name = ascii ''bob'', last_name = None, username = None\<rparr>"
  let ?msg = "\<lparr>message_id = 5, msg_text = Some (ascii ''/Rules''), date = 2000000\<rparr>"
  let ?upd = "\<lparr>message = Some ?msg,
               channel_post = None, effective_chat = Some 7, effective_user = Some ?user\<rparr>"
  let ?out = "check_message ascii_tables ?cfg ?tbot 2000000 2000001 ?st ?upd"
  have h1: "effective_chat ?upd = Some 7" by simp
  have h2: "effective_user ?upd = Some ?user" by simp
  have h3: "(case message ?upd of None \<Rightarrow> channel_post ?upd | Some m \<Rightarrow> Some m) = Some ?msg" by simp
  have h4: "msg_text ?msg = Some (ascii ''/Rules'')" by simp
  have h5: "user_id ?user \<notin> set (administrators ?tbot 7)" by simp
  have h6: "matches_filter ascii_tables ?cfg (lower ascii_tables (ascii ''/Rules''))" by code_simp
  have a: "spam ?out = ?st"
    using filter_match_bypasses_spam_detector [OF h1 h2 h3 h4 h5 h6] by blast
  have b: "calls ?out = [GetChatAdministrators 7, ReplyText 5 (ascii ''See pinned message.'')]"
    by code_simp
  show ?thesis
    unfolding Let_def using h5 h6 a b by blast
qed




text \<open>The minimum-length check lies inside the administrator exemption: the one-letter
  message of an administrator is not deleted, the handler only fetches the administrator
  list.\<close>

theorem admin_short_message_not_deleted:
  "length (strip ascii_tables (lower ascii_tables (ascii ''k''))) < 2
   \<and> 1 \<in> set (administrators
       (\<lparr>raises = (\<lambda>c. False), administrators = (\<lambda>chat_id. [1]),
         sent_message_id = (\<lambda>chat_id t. 100), path_exists = (\<lambda>p. False)\<rparr> :: ustr platform) 7)
   \<and> check_message ascii_tables
       \<lparr>FILTERS = [], BAN_PHRASES = [], MUTE_PHRASES = [], DELETE_PHRASES = [],
        WHITELIST_PHRASES = []\<rparr>
       \<lparr>raises = (\<lambda>c. False), administrators = (\<lambda>chat_id. [1]),
        sent_message_id = (\<lambda>chat_id t. 100), path_exists = (\<lambda>p. False)\<rparr>
       0 0
       \<lparr>SPAM_TRACKER = [], SPAM_RECORDS = []\<rparr>
       \<lparr>message = Some \<lparr>message_id = 5, msg_text = Some (ascii ''k''), date = 0\<rparr>,
        channel_post = None, effective_chat = Some 7,
        effective_user = Some \<lparr>user_id = 1, first_name = ascii ''ann'', last_name = None,
                                username = None\<rparr>\<rparr>
     = \<lparr>raised = None, calls = [GetChatAdministrators 7],
        spam = \<lparr>SPAM_TRACKER = [], SPAM_RECORDS = []\<rparr>\<rparr>"
  by code_simp

text \<open>
  Claim C8, amended. For a message with non-empty text whose trimmed text is shorter
  than two characters: when the sender is not an administrator, the handler deletes the
  message and stops, leaving the spam state unchanged; when the sender is an
  administrator, the length check is not run: the handler goes to the filter-response
  dispatch and makes no moderation call.
\<close>

theorem short_message_deleted_unless_admin:
  assumes chat: "effective_chat upd = Some chat_id"
      and usr: "effective_user upd = Some user"
      and msg: "(case message upd of None \<Rightarrow> channel_post upd | Some m \<Rightarrow> Some m) = Some msg"
      and has_text: "msg_text msg = Some raw"
      and nonempty_text: "raw \<noteq> []"
      and fetched: "\<not> raises tbot (GetChatAdministrators chat_id)"
      and short: "length (strip uc (lower uc raw)) < 2"
  shows "(user_id user \<notin> set (administrators tbot chat_id) \<longrightarrow>
            calls (check_message uc cfg tbot now_spam now_recent st upd) =
              [GetChatAdministrators chat_id, DeleteMessage chat_id (message_id msg)]
          \<and> spam (check_message uc cfg tbot now_spam now_recent st upd) = st)
       \<and> (user_id user \<in> set (administrators tbot chat_id) \<longrightarrow>
            list_all (\<lambda>c. \<not> is_moderation c) (calls (check_message uc cfg tbot now_spam now_recent st upd))
          \<and> check_message uc cfg tbot now_spam now_recent st upd =
              filter_responses uc tbot chat_id msg (lower uc raw) (FILTERS cfg) [GetChatAdministrators chat_id] st)"
proof (intro conjI impI)
  assume non_admin: "user_id user \<notin> set (administrators tbot chat_id)"
  have eq: "check_message uc cfg tbot now_spam now_recent st upd =
              run_calls tbot [DeleteMessage chat_id (message_id msg)] [GetChatAdministrators chat_id] st"
    using assms non_admin by (simp add: check_message_def Let_def del: run_calls.simps)
  show "calls (check_message uc cfg tbot now_spam now_recent st upd) =
              [GetChatAdministrators chat_id, DeleteMessage chat_id (message_id msg)]"
    by (simp add: eq del: run_calls.simps)
  show "spam (check_message uc cfg tbot now_spam now_recent st upd) = st"
    by (simp add: eq del: run_calls.simps)
next
  assume admin: "user_id user \<in> set (administrators tbot chat_id)"
  show eq: "check_message uc cfg tbot now_spam now_recent st upd =
              filter_responses uc tbot chat_id msg (lower uc raw) (FILTERS cfg) [GetChatAdministrators chat_id] st"
    using assms admin by (simp add: check_message_def Let_def)
  show "list_all (\<lambda>c. \<not> is_moderation c) (calls (check_message uc cfg tbot now_spam now_recent st upd))"
    using filter_responses_set [of uc tbot chat_id msg "lower uc raw" "FILTERS cfg" "[GetChatAdministrators chat_id]" st]
    by (auto simp: eq list_all_iff)
qed

text \<open>An instance: the same one-letter message is deleted when a non-administrator sends
  it and left alone when an administrator does.\<close>

theorem short_message_deleted_unless_admin_witness:
  "(let cfg = \<lparr>FILTERS = [], BAN_PHRASES = [], MUTE_PHRASES = [], DELETE_PHRASES = [],
               WHITELIST_PHRASES = []\<rparr>;
        tbot = \<lparr>raises = (\<lambda>c. False), administrators = (\<lambda>chat_id. [1]),
                sent_message_id = (\<lambda>chat_id t. 100), path_exists = (\<lambda>p. False)\<rparr>;
        st = \<lparr>SPAM_TRACKER = [], SPAM_RECORDS = []\<rparr>;
        msg = \<lparr>message_id = 5, msg_text = Some (ascii '' k ''), date = 0\<rparr>;
        bob = \<lparr>user_id = 42, first_name = ascii ''bob'', last_name = None, username = None\<rparr>;
        ann = \<lparr>user_id = 1, first_name = ascii ''ann'', last_name = None, username = None\<rparr>;
        out_bob = check_message ascii_tables cfg tbot 0 0 st
                    \<lparr>message = Some msg, channel_post = None, effective_chat = Some 7,
                     effective_user = Some bob\<rparr>;
        out_ann = check_message ascii_tables cfg tbot 0 0 st
                    \<lparr>message = Some msg, channel_post = None, effective_chat = Some 7,
                     effective_user = Some ann\<rparr>
    in length (strip ascii_tables (lower ascii_tables (ascii '' k ''))) < 2
       \<and> user_id bob \<notin> set (administrators tbot 7)
       \<and> calls out_bob = [GetChatAdministrators 7, DeleteMessage 7 5]
       \<and> spam out_bob = st
       \<and> user_id ann \<in> set (administrators tbot 7)
       \<and> list_all (\<lambda>c. \<not> is_moderation c) (calls out_ann)
       \<and> calls out_ann = [GetChatAdministrators 7])"
proof -
  let ?cfg = "\<lparr>FILTERS = [], BAN_PHRASES = [], MUTE_PHRASES = [], DELETE_PHRASES = [],
               WHITELIST_PHRASES = []\<rparr>"
  let ?tbot = "\<lparr>raises = (\<lambda>c. False), administrators = (\<lambda>chat_id. [1]),
                sent_message_id = (\<lambda>chat_id t. 100), path_exists = (\<lambda>p. False)\<rparr>
               :: ustr platform"
  let ?st = "\<lparr>SPAM_TRACKER = [], SPAM_RECORDS = []\<rparr> :: ustr spam_state"
  let ?msg = "\<lparr>message_id = 5, msg_text = Some (ascii '' k ''), date = 0\<rparr>"
  let ?bob = "\<lparr>user_id = 42, first_name = ascii ''bob'', last_name = None, username = None\<rparr>"
  let ?ann = "\<lparr>user_id = 1, first_name = ascii ''ann'', last_name = None, username = None\<rparr>"
  let ?upd_bob = "\<lparr>message = Some ?msg, channel_post = None, effective_chat = Some 7,
                   effective_user = Some ?bob\<rparr>"
  let ?upd_ann = "\<lparr>message = Some ?msg, channel_post = None, effective_chat = Some 7,
                   effective_user = Some ?ann\<rparr>"
  let ?out_bob = "check_message ascii_tables ?cfg ?tbot 0 0 ?st ?upd_bob"
  let ?out_ann = "check_message ascii_tables ?cfg ?tbot 0 0 ?st ?upd_ann"
  have b1: "effective_chat ?upd_bob = Some 7" by simp
  have b2: "effective_user ?upd_bob = Some ?bob" by simp
  have b3: "(case message ?upd_bob of None \<Rightarrow> channel_post ?upd_bob | Some m \<Rightarrow> Some m) = Some ?msg"
    by simp
  have a1: "effective_chat ?upd_ann = Some 7" by simp
  have a2: "effective_user ?upd_ann = Some ?ann" by simp
  have a3: "(case message ?upd_ann of None \<Rightarrow> channel_post ?upd_ann | Some m \<Rightarrow> Some m) = Some ?msg"
    by simp
  have h4: "msg_text ?msg = Some (ascii '' k '')" by simp
  have h5: "ascii '' k '' \<noteq> []" by (simp add: ascii_def)
  have h6: "\<not> raises ?tbot (GetChatAdministrators 7)" by simp
  have h7: "length (strip ascii_tables (lower ascii_tables (ascii '' k ''))) < 2" by code_simp
  have na: "user_id ?bob \<notin> set (administrators ?tbot 7)" by simp
  have ad: "user_id ?ann \<in> set (administrators ?tbot 7)" by simp
  note tb = short_message_deleted_unless_admin [OF b1 b2 b3 h4 h5 h6 h7, of ?cfg 0 0 ?st]
  note ta = short_message_deleted_unless_admin [OF a1 a2 a3 h4 h5 h6 h7, of ?cfg 0 0 ?st]
  have a: "calls ?out_bob = [GetChatAdministrators 7, DeleteMessage 7 5]"
    using tb na by simp
  have b: "spam ?out_bob = ?st" using tb na by blast
  have c: "list_all (\<lambda>c. \<not> is_moderation c) (calls ?out_ann)" using ta ad by blast
  have d: "calls ?out_ann = [GetChatAdministrators 7]" by code_simp
  show ?thesis
    unfolding Let_def using h7 na a b ad c d by blast
qed

text \<open>The exemption covers the spam check only: a message of a non-administrator that
  matches the filter trigger \<open>airdrop\<close> is still banned by the ban phrase \<open>airdrop\<close>.\<close>

theorem filter_match_still_banned_by_phrase:
  "42 \<notin> set (administrators
       (\<lparr>raises = (\<lambda>c. False), administrators = (\<lambda>chat_id. [1]),
         sent_message_id = (\<lambda>chat_id t. 100), path_exists = (\<lambda>p. False)\<rparr> :: ustr platform) 7)
   \<and> matches_filter ascii_tables
       \<lparr>FILTERS = [(ascii ''airdrop'',
                    \<lparr>response_text = Some (ascii ''No airdrops here.''), media = None,
                     media_type = None\<rparr>)],
        BAN_PHRASES = [ascii ''airdrop''], MUTE_PHRASES = [], DELETE_PHRASES = [],
        WHITELIST_PHRASES = []\<rparr>
       (lower ascii_tables (ascii ''free airdrop today''))
   \<and> check_message ascii_tables
       \<lparr>FILTERS = [(ascii ''airdrop'',
                    \<lparr>response_text = Some (ascii ''No airdrops here.''), media = None,
                     media_type = None\<rparr>)],
        BAN_PHRASES = [ascii ''airdrop''], MUTE_PHRASES = [], DELETE_PHRASES = [],
        WHITELIST_PHRASES = []\<rparr>
       \<lparr>raises = (\<lambda>c. False), administrators = (\<lambda>chat_id. [1]),
        sent_message_id = (\<lambda>chat_id t. 100), path_exists = (\<lambda>p. False)\<rparr>
       0 0
       \<lparr>SPAM_TRACKER = [], SPAM_RECORDS = []\<rparr>
       \<lparr>message = Some \<lparr>message_id = 5, msg_text = Some (ascii ''free airdrop today''), date = 0\<rparr>,
        channel_post = None, effective_chat = Some 7,
        effective_user = Some \<lparr>user_id = 42, first_name = ascii ''bob'', last_name = None,
                                username = None\<rparr>\<rparr>
     = \<lparr>raised = None,
        calls = [GetChatAdministrators 7, BanChatMember 7 42,
                 ReplyText 5 (ascii ''arc angel fallen. bob has been banned.'')],
        spam = \<lparr>SPAM_TRACKER = [], SPAM_RECORDS = []\<rparr>\<rparr>"
  by code_simp

text \<open>
  Claim C1, amended. For a message of a non-administrator with non-empty text that
  passes the length, suspicious-name and multiplication checks and whose text matches a
  filter trigger or whose trimmed text is in the whitelist, the handler skips the spam
  check only. The spam state is unchanged, and the handler continues with the
  ban-phrase check (a match bans the sender and replies with the ban notice), then the
  mute-phrase check (a match mutes the sender and replies with the mute notice), then
  the delete-phrase check (a match deletes the message), and then the filter responses
  (the calls of the first filter whose trigger matches). In the ban and the mute case
  the reply is not made when the ban or the mute call itself raises.
\<close>

theorem exempt_message_skips_spam_check_only:
  assumes chat: "effective_chat upd = Some chat_id"
      and usr: "effective_user upd = Some user"
      and msg: "(case message upd of None \<Rightarrow> channel_post upd | Some m \<Rightarrow> Some m) = Some msg"
      and has_text: "msg_text msg = Some raw"
      and nonempty_text: "raw \<noteq> []"
      and fetched: "\<not> raises tbot (GetChatAdministrators chat_id)"
      and non_admin: "user_id user \<notin> set (administrators tbot chat_id)"
      and long: "\<not> length (strip uc (lower uc raw)) < 2"
      and name_ok: "\<not> suspicious_name uc user"
      and no_mult: "\<not> contains_multiplication_phrase uc (lower uc raw)"
      and exempt: "matches_filter uc cfg (lower uc raw) \<or>
                   strip uc (lower uc raw) \<in> set (WHITELIST_PHRASES cfg)"
  shows "spam (check_message uc cfg tbot now_spam now_recent st upd) = st
       \<and> (list_ex (\<lambda>phrase. phrase_matches uc phrase (lower uc raw)) (BAN_PHRASES cfg) \<longrightarrow>
            calls (check_message uc cfg tbot now_spam now_recent st upd) =
              GetChatAdministrators chat_id # BanChatMember chat_id (user_id user) #
                (if raises tbot (BanChatMember chat_id (user_id user)) then []
                 else [ReplyText (message_id msg) (ban_notice user)]))
       \<and> (\<not> list_ex (\<lambda>phrase. phrase_matches uc phrase (lower uc raw)) (BAN_PHRASES cfg) \<and>
            list_ex (\<lambda>phrase. phrase_matches uc phrase (lower uc raw)) (MUTE_PHRASES cfg) \<longrightarrow>
            calls (check_message uc cfg tbot now_spam now_recent st upd) =
              GetChatAdministrators chat_id #
              RestrictChatMember chat_id (user_id user) (date msg + MUTE_DURATION) #
                (if raises tbot (RestrictChatMember chat_id (user_id user) (date msg + MUTE_DURATION))
                 then [] else [ReplyText (message_id msg) (mute_notice user)]))
       \<and> (\<not> list_ex (\<lambda>phrase. phrase_matches uc phrase (lower uc raw)) (BAN_PHRASES cfg) \<and>
          \<not> list_ex (\<lambda>phrase. phrase_matches uc phrase (lower uc raw)) (MUTE_PHRASES cfg) \<and>
            list_ex (\<lambda>phrase. phrase_matches uc phrase (lower uc raw)) (DELETE_PHRASES cfg) \<longrightarrow>
            calls (check_message uc cfg tbot now_spam now_recent st upd) =
              [GetChatAdministrators chat_id, DeleteMessage chat_id (message_id msg)])
       \<and> (\<not> list_ex (\<lambda>phrase. phrase_matches uc phrase (lower uc raw)) (BAN_PHRASES cfg) \<and>
          \<not> list_ex (\<lambda>phrase. phrase_matches uc phrase (lower uc raw)) (MUTE_PHRASES cfg) \<and>
          \<not> list_ex (\<lambda>phrase. phrase_matches uc phrase (lower uc raw)) (DELETE_PHRASES cfg) \<longrightarrow>
            calls (check_message uc cfg tbot now_spam now_recent st upd) =
              GetChatAdministrators chat_id #
                (case find (\<lambda>entry. trigger_matches uc (fst entry) (lower uc raw)) (FILTERS cfg) of
                   None \<Rightarrow> []
                 | Some entry \<Rightarrow> filter_calls uc tbot chat_id msg (snd entry)))"
proof -
  let ?out = "check_message uc cfg tbot now_spam now_recent st upd"
  let ?t = "lower uc raw"
  let ?ban = "list_ex (\<lambda>phrase. phrase_matches uc phrase ?t) (BAN_PHRASES cfg)"
  let ?mute = "list_ex (\<lambda>phrase. phrase_matches uc phrase ?t) (MUTE_PHRASES cfg)"
  let ?del = "list_ex (\<lambda>phrase. phrase_matches uc phrase ?t) (DELETE_PHRASES cfg)"
  have eq: "?out = block_phrases uc cfg tbot chat_id user msg ?t [GetChatAdministrators chat_id] st"
    using assms
    by (simp add: check_message_def Let_def should_skip_spam_check_def del: run_calls.simps)
  have a: "spam ?out = st"
    by (simp add: eq)
  have b: "?ban \<Longrightarrow> calls ?out =
              GetChatAdministrators chat_id # BanChatMember chat_id (user_id user) #
                (if raises tbot (BanChatMember chat_id (user_id user)) then []
                 else [ReplyText (message_id msg) (ban_notice user)])"
    by (simp add: eq block_phrases_def finish_def failure_def)
  have c: "\<not> ?ban \<and> ?mute \<Longrightarrow> calls ?out =
              GetChatAdministrators chat_id #
              RestrictChatMember chat_id (user_id user) (date msg + MUTE_DURATION) #
                (if raises tbot (RestrictChatMember chat_id (user_id user) (date msg + MUTE_DURATION))
                 then [] else [ReplyText (message_id msg) (mute_notice user)])"
    by (simp add: eq block_phrases_def finish_def failure_def)
  have d: "\<not> ?ban \<and> \<not> ?mute \<and> ?del \<Longrightarrow> calls ?out =
              [GetChatAdministrators chat_id, DeleteMessage chat_id (message_id msg)]"
    by (simp add: eq block_phrases_def finish_def failure_def)
  have e: "\<not> ?ban \<and> \<not> ?mute \<and> \<not> ?del \<Longrightarrow> calls ?out =
              GetChatAdministrators chat_id #
                (case find (\<lambda>entry. trigger_matches uc (fst entry) ?t) (FILTERS cfg) of
                   None \<Rightarrow> []
                 | Some entry \<Rightarrow> filter_calls uc tbot chat_id msg (snd entry))"
    by (simp add: eq block_phrases_def filter_responses_find)
  from a b c d e show ?thesis by blast
qed

text \<open>Two instances, with the text already in the window and flagged. A whitelisted text
  that holds a mute phrase skips the spam check and is muted by the phrase; a text that
  matches a filter trigger and holds a delete phrase skips the spam check and is
  deleted. The spam state is untouched both times.\<close>

theorem exempt_message_skips_spam_check_only_witness:
  "(let cfg = \<lparr>FILTERS = [(ascii ''price'',
                            \<lparr>response_text = Some (ascii ''No price talk.''), media = None,
                             media_type = None\<rparr>)],
               BAN_PHRASES = [ascii ''scam''], MUTE_PHRASES = [ascii ''promo''],
               DELETE_PHRASES = [ascii ''moon''], WHITELIST_PHRASES = [ascii ''gm promo'']\<rparr>;
        tbot = \<lparr>raises = (\<lambda>c. False), administrators = (\<lambda>chat_id. [1]),
                sent_message_id = (\<lambda>chat_id t. 100), path_exists = (\<lambda>p. False)\<rparr>;
        st = \<lparr>SPAM_TRACKER = [(ascii ''gm promo'', Deque None [(8, 0), (9, 1000000)])],
              SPAM_RECORDS = [(ascii ''gm promo'', 0)]\<rparr>;
        user = \<lparr>user_id = 42, first_name = ascii ''bob'', last_name = None, username = None\<rparr>;
        msg1 = \<lparr>message_id = 5, msg_text = Some (ascii '' GM promo ''), date = 2000000\<rparr>;
        msg2 = \<lparr>message_id = 6, msg_text = Some (ascii ''price to the moon''), date = 2000000\<rparr>;
        out1 = check_message ascii_tables cfg tbot 2000000 2000001 st
                 \<lparr>message = Some msg1, channel_post = None, effective_chat = Some 7,
                  effective_user = Some user\<rparr>;
        out2 = check_message ascii_tables cfg tbot 2000000 2000001 st
                 \<lparr>message = Some msg2, channel_post = None, effective_chat = Some 7,
                  effective_user = Some user\<rparr>
    in user_id user \<notin> set (administrators tbot 7)
       \<and> strip ascii_tables (lower ascii_tables (ascii '' GM promo '')) \<in> set (WHITELIST_PHRASES cfg)
       \<and> spam out1 = st
       \<and> calls out1 = [GetChatAdministrators 7, RestrictChatMember 7 42 259202000000,
                        ReplyText 5 (ascii ''bob has been muted for 3 days.'')]
       \<and> matches_filter ascii_tables cfg (lower ascii_tables (ascii ''price to the moon''))
       \<and> spam out2 = st
       \<and> calls out2 = [GetChatAdministrators 7, DeleteMessage 7 6])"
proof -
  let ?cfg = "\<lparr>FILTERS = [(ascii ''price'',
                            \<lparr>response_text = Some (ascii ''No price talk.''), media = None,
                             media_type = None\<rparr>)],
               BAN_PHRASES = [ascii ''scam''], MUTE_PHRASES = [ascii ''promo''],
               DELETE_PHRASES = [ascii ''moon''], WHITELIST_PHRASES = [ascii ''gm promo'']\<rparr>"
  let ?tbot = "\<lparr>raises = (\<lambda>c. False), administrators = (\<lambda>chat_id. [1]),
                sent_message_id = (\<lambda>chat_id t. 100), path_exists = (\<lambda>p. False)\<rparr>
               :: ustr platform"
  let ?st = "\<lparr>SPAM_TRACKER = [(ascii ''gm promo'', Deque None [(8, 0), (9, 1000000)])],
              SPAM_RECORDS = [(ascii ''gm promo'', 0)]\<rparr>"
  let ?user = "\<lparr>user_id = 42, first_name = ascii ''bob'', last_name = None, username = None\<rparr>"
  let ?msg1 = "\<lparr>message_id = 5, msg_text = Some (ascii '' GM promo ''), date = 2000000\<rparr>"
  let ?msg2 = "\<lparr>message_id = 6, msg_text = Some (ascii ''price to the moon''), date = 2000000\<rparr>"
  let ?upd1 = "\<lparr>message = Some ?msg1, channel_post = None, effective_chat = Some 7,
                effective_user = Some ?user\<rparr>"
  let ?upd2 = "\<lparr>message = Some ?msg2, channel_post = None, effective_chat = Some 7,
                effective_user = Some ?user\<rparr>"
  let ?out1 = "check_message ascii_tables ?cfg ?tbot 2000000 2000001 ?st ?upd1"
  let ?out2 = "check_message ascii_tables ?cfg ?tbot 2000000 2000001 ?st ?upd2"
  let ?t1 = "lower ascii_tables (ascii '' GM promo '')"
  let ?t2 = "lower ascii_tables (ascii ''price to the moon'')"
  have a1: "effective_chat ?upd1 = Some 7" by simp
  have a2: "effective_user ?upd1 = Some ?user" by simp
  have a3: "(case message ?upd1 of None \<Rightarrow> channel_post ?upd1 | Some m \<Rightarrow> Some m) = Some ?msg1"
    by simp
  have a4: "msg_text ?msg1 = Some (ascii '' GM promo '')" by simp
  have a5: "ascii '' GM promo '' \<noteq> []" by (simp add: ascii_def)
  have b1: "effective_chat ?upd2 = Some 7" by simp
  have b2: "effective_user ?upd2 = Some ?user" by simp
  have b3: "(case message ?upd2 of None \<Rightarrow> channel_post ?upd2 | Some m \<Rightarrow> Some m) = Some ?msg2"
    by simp
  have b4: "msg_text ?msg2 = Some (ascii ''price to the moon'')" by simp
  have b5: "ascii ''price to the moon'' \<noteq> []" by (simp add: ascii_def)
  have h5: "\<not> raises ?tbot (GetChatAdministrators 7)" by simp
  have h6: "user_id ?user \<notin> set (administrators ?tbot 7)" by simp
  have a7: "\<not> length (strip ascii_tables ?t1) < 2" by code_simp
  have b7: "\<not> length (strip ascii_tables ?t2) < 2" by code_simp
  have h8: "\<not> suspicious_name ascii_tables ?user" by code_simp
  have a9: "\<not> contains_multiplication_phrase ascii_tables ?t1" by code_simp
  have b9: "\<not> contains_multiplication_phrase ascii_tables ?t2" by code_simp
  have wl: "strip ascii_tables ?t1 \<in> set (WHITELIST_PHRASES ?cfg)" by code_simp
  then have a10: "matches_filter ascii_tables ?cfg ?t1 \<or>
                  strip ascii_tables ?t1 \<in> set (WHITELIST_PHRASES ?cfg)" by blast
  have mf: "matches_filter ascii_tables ?cfg ?t2" by code_simp
  then have b10: "matches_filter ascii_tables ?cfg ?t2 \<or>
                  strip ascii_tables ?t2 \<in> set (WHITELIST_PHRASES ?cfg)" by blast
  have noban1: "\<not> list_ex (\<lambda>phrase. phrase_matches ascii_tables phrase ?t1) (BAN_PHRASES ?cfg)"
    by code_simp
  have mute1: "list_ex (\<lambda>phrase. phrase_matches ascii_tables phrase ?t1) (MUTE_PHRASES ?cfg)"
    by code_simp
  have noban2: "\<not> list_ex (\<lambda>phrase. phrase_matches ascii_tables phrase ?t2) (BAN_PHRASES ?cfg)"
    by code_simp
  have nomute2: "\<not> list_ex (\<lambda>phrase. phrase_matches ascii_tables phrase ?t2) (MUTE_PHRASES ?cfg)"
    by code_simp
  have del2: "list_ex (\<lambda>phrase. phrase_matches ascii_tables phrase ?t2) (DELETE_PHRASES ?cfg)"
    by code_simp
  note t1 = exempt_message_skips_spam_check_only [OF a1 a2 a3 a4 a5 h5 h6 a7 h8 a9 a10,
              of 2000000 2000001 ?st]
  note t2 = exempt_message_skips_spam_check_only [OF b1 b2 b3 b4 b5 h5 h6 b7 h8 b9 b10,
              of 2000000 2000001 ?st]
  have s1: "spam ?out1 = ?st" using t1 by blast
  have s2: "spam ?out2 = ?st" using t2 by blast
  have "calls ?out1 =
          GetChatAdministrators 7 #
          RestrictChatMember 7 (user_id ?user) (date ?msg1 + MUTE_DURATION) #
            (if raises ?tbot (RestrictChatMember 7 (user_id ?user) (date ?msg1 + MUTE_DURATION))
             then [] else [ReplyText (message_id ?msg1) (mute_notice ?user)])"
    using t1 noban1 mute1 by blast
  moreover have "mute_notice ?user = ascii ''bob has been muted for 3 days.''" by code_simp
  ultimately have c1: "calls ?out1 = [GetChatAdministrators 7, RestrictChatMember 7 42 259202000000,
                        ReplyText 5 (ascii ''bob has been muted for 3 days.'')]"
    by (simp add: MUTE_DURATION_def)
  have "calls ?out2 = [GetChatAdministrators 7, DeleteMessage 7 (message_id ?msg2)]"
    using t2 noban2 nomute2 del2 by blast
  then have c2: "calls ?out2 = [GetChatAdministrators 7, DeleteMessage 7 6]" by simp
  show ?thesis
    unfolding Let_def using h6 wl s1 c1 mf s2 c2 by blast
qed

lemma muted_users_append: "muted_users (xs @ ys) = muted_users xs @ muted_users ys"
  by (simp add: muted_users_def List.map_filter_def)

lemma muted_users_mute_spammers:
  "muted_users (mute_spammers tbot chat_id until_date ids tr) = muted_users tr @ ids"
  by (induction ids arbitrary: tr)
     (simp_all add: muted_users_append, simp_all add: muted_users_def List.map_filter_simps)

lemma count_list_distinct:
  "distinct xs \<Longrightarrow> x \<in> set xs \<Longrightarrow> count_list xs x = 1"
  by (induction xs) auto

lemma spam_check_valid:
  assumes "valid_state st"
  shows "valid_state (spam (spam_check uc cfg tbot now_spam now_recent chat_id user msg message_text tr st))"
proof -
  obtain flagged st1 where cs: "check_for_spam st message_text (user_id user) now_spam = (flagged, st1)"
    by force
  have "valid_state st1"
    using check_for_spam_valid [OF assms, of message_text "user_id user" now_spam] cs by simp
  then show ?thesis
    by (simp add: spam_check_def cs Let_def finish_def)
qed

lemma check_message_valid:
  assumes "valid_state st"
  shows "valid_state (spam (check_message uc cfg tbot now_spam now_recent st upd))"
  using assms spam_check_valid [OF assms, of uc]
  by (simp add: check_message_def Let_def finish_def failure_def split: option.splits
        del: run_calls.simps)

text \<open>
  Claim C5. A message with text that reaches the spam check (non-administrator, passing the
  earlier checks, not exempt) whose text has a flag record no older than the retention
  period at the reading of \<^verbatim>\<open>check_recent_spam\<close>: whatever the live window holds, a mute
  of the sender is attempted exactly once, and the handler returns without an
  exception.
\<close>

theorem flagged_text_mutes_sender_once:
  assumes chat: "effective_chat upd = Some chat_id"
      and usr: "effective_user upd = Some user"
      and msg: "(case message upd of None \<Rightarrow> channel_post upd | Some m \<Rightarrow> Some m) = Some msg"
      and has_text: "msg_text msg = Some raw"
      and nonempty_text: "raw \<noteq> []"
      and fetched: "\<not> raises tbot (GetChatAdministrators chat_id)"
      and non_admin: "user_id user \<notin> set (administrators tbot chat_id)"
      and long: "\<not> length (strip uc (lower uc raw)) < 2"
      and name_ok: "\<not> suspicious_name uc user"
      and no_mult: "\<not> contains_multiplication_phrase uc (lower uc raw)"
      and not_exempt: "\<not> should_skip_spam_check uc cfg (lower uc raw)"
      and valid: "valid_state st"
      and flag: "map_of (SPAM_RECORDS st) (lower uc raw) = Some ts"
      and fresh: "now_recent - ts \<le> SPAM_RECORD_DURATION"
  shows "count_list (muted_users (calls (check_message uc cfg tbot now_spam now_recent st upd)))
           (user_id user) = 1
       \<and> raised (check_message uc cfg tbot now_spam now_recent st upd) = None"
proof -
  let ?t = "lower uc raw"
  let ?tr = "[GetChatAdministrators chat_id]"
  let ?w = "pruned_window st ?t (user_id user) now_spam"
  have eq: "check_message uc cfg tbot now_spam now_recent st upd =
              spam_check uc cfg tbot now_spam now_recent chat_id user msg ?t ?tr st"
    using chat usr msg has_text nonempty_text fetched non_admin long name_ok no_mult not_exempt
    by (simp add: check_message_def Let_def del: run_calls.simps)
  have sender: "user_id user \<in> set (map fst ?w)"
    using sender_in_pruned_window [OF valid, of "user_id user" now_spam ?t] by force
  obtain ids where ids: "distinct ids" "user_id user \<in> set ids"
    and out: "spam_check uc cfg tbot now_spam now_recent chat_id user msg ?t ?tr st =
                finish (mute_spammers tbot chat_id (date msg + MUTE_DURATION) ids ?tr)
                  (snd (check_for_spam st ?t (user_id user) now_spam))"
  proof (cases "length ?w \<ge> SPAM_THRESHOLD")
    case True
    have ne: "?w \<noteq> []" using sender by auto
    have "spam_check uc cfg tbot now_spam now_recent chat_id user msg ?t ?tr st =
            finish (mute_spammers tbot chat_id (date msg + MUTE_DURATION)
                      (remdups (remdups (map fst ?w))) ?tr)
              (snd (check_for_spam st ?t (user_id user) now_spam))"
      using True sender ne
      by (simp add: spam_check_def check_for_spam_unfold list_of_set_def Let_def)
    moreover have "distinct (remdups (remdups (map fst ?w)))" by simp
    moreover have "user_id user \<in> set (remdups (remdups (map fst ?w)))" using sender by simp
    ultimately show ?thesis using that by blast
  next
    case False
    have rec: "check_recent_spam (snd (check_for_spam st ?t (user_id user) now_spam)) ?t now_recent"
      using False flag fresh by (simp add: check_for_spam_unfold check_recent_spam_def)
    have "spam_check uc cfg tbot now_spam now_recent chat_id user msg ?t ?tr st =
            finish (mute_spammers tbot chat_id (date msg + MUTE_DURATION) [user_id user] ?tr)
              (snd (check_for_spam st ?t (user_id user) now_spam))"
      using False rec
      by (simp add: spam_check_def check_for_spam_unfold list_of_set_def Let_def)
    then show ?thesis using that [of "[user_id user]"] by simp
  qed
  have "muted_users (calls (check_message uc cfg tbot now_spam now_recent st upd)) = ids"
    by (simp add: eq out finish_def muted_users_mute_spammers)
       (simp add: muted_users_def List.map_filter_simps)
  then show ?thesis
    using ids by (simp add: count_list_distinct eq out finish_def)
qed

text \<open>An instance: the text was flagged 200 seconds ago and its window is empty; the sender
  is muted once.\<close>

theorem flagged_text_mutes_sender_once_witness:
  "(let cfg = \<lparr>FILTERS = [], BAN_PHRASES = [], MUTE_PHRASES = [], DELETE_PHRASES = [],
               WHITELIST_PHRASES = []\<rparr>;
        tbot = \<lparr>raises = (\<lambda>c. False), administrators = (\<lambda>chat_id. [1]),
                sent_message_id = (\<lambda>chat_id t. 100), path_exists = (\<lambda>p. False)\<rparr>;
        st = \<lparr>SPAM_TRACKER = [], SPAM_RECORDS = [(ascii ''join our airdrop now'', 0)]\<rparr>;
        user = \<lparr>user_id = 42, first_name = ascii ''bob'', last_name = None, username = None\<rparr>;
        upd = \<lparr>message = Some \<lparr>message_id = 5, msg_text = Some (ascii ''Join our airdrop now''),
                                date = 0\<rparr>,
               channel_post = None, effective_chat = Some 7, effective_user = Some user\<rparr>;
        out = check_message ascii_tables cfg tbot 200000000 200000001 st upd
    in valid_state st
       \<and> \<not> should_skip_spam_check ascii_tables cfg (lower ascii_tables (ascii ''Join our airdrop now''))
       \<and> map_of (SPAM_RECORDS st) (lower ascii_tables (ascii ''Join our airdrop now'')) = Some 0
       \<and> 200000001 - 0 \<le> SPAM_RECORD_DURATION
       \<and> count_list (muted_users (calls out)) 42 = 1
       \<and> calls out = [GetChatAdministrators 7, RestrictChatMember 7 42 259200000000,
                       SendMessage 7 (ascii ''User 42 has been muted for 3 days.'')])"
proof -
  let ?cfg = "\<lparr>FILTERS = [], BAN_PHRASES = [], MUTE_PHRASES = [], DELETE_PHRASES = [],
               WHITELIST_PHRASES = []\<rparr>"
  let ?tbot = "\<lparr>raises = (\<lambda>c. False), administrators = (\<lambda>chat_id. [1]),
                sent_message_id = (\<lambda>chat_id t. 100), path_exists = (\<lambda>p. False)\<rparr>
               :: ustr platform"
  let ?st = "\<lparr>SPAM_TRACKER = [], SPAM_RECORDS = [(ascii ''join our airdrop now'', 0)]\<rparr>"
  let ?user = "\<lparr>user_id = 42, first_name = ascii ''bob'', last_name = None, username = None\<rparr>"
  let ?raw = "ascii ''Join our airdrop now''"
  let ?msg = "\<lparr>message_id = 5, msg_text = Some ?raw, date = 0\<rparr>"
  let ?upd = "\<lparr>message = Some ?msg, channel_post = None, effective_chat = Some 7,
               effective_user = Some ?user\<rparr>"
  let ?out = "check_message ascii_tables ?cfg ?tbot 200000000 200000001 ?st ?upd"
  have h1: "effective_chat ?upd = Some 7" by simp
  have h2: "effective_user ?upd = Some ?user" by simp
  have h3: "(case message ?upd of None \<Rightarrow> channel_post ?upd | Some m \<Rightarrow> Some m) = Some ?msg" by simp
  have h4: "msg_text ?msg = Some ?raw" by simp
  have h4': "?raw \<noteq> []" by (simp add: ascii_def)
  have h5: "\<not> raises ?tbot (GetChatAdministrators 7)" by simp
  have h6: "user_id ?user \<notin> set (administrators ?tbot 7)" by simp
  have h7: "\<not> length (strip ascii_tables (lower ascii_tables ?raw)) < 2" by code_simp
  have h8: "\<not> suspicious_name ascii_tables ?user" by code_simp
  have h9: "\<not> contains_multiplication_phrase ascii_tables (lower ascii_tables ?raw)" by code_simp
  have h10: "\<not> should_skip_spam_check ascii_tables ?cfg (lower ascii_tables ?raw)" by code_simp
  have h11: "valid_state ?st" by code_simp
  have h12: "map_of (SPAM_RECORDS ?st) (lower ascii_tables ?raw) = Some 0" by code_simp
  have h13: "(200000001 :: int) - 0 \<le> SPAM_RECORD_DURATION" by (simp add: SPAM_RECORD_DURATION_def)
  note t = flagged_text_mutes_sender_once [OF h1 h2 h3 h4 h4' h5 h6 h7 h8 h9 h10 h11 h12 h13,
             of 200000000]
  have a: "count_list (muted_users (calls ?out)) 42 = 1" using t by simp
  have c: "calls ?out = [GetChatAdministrators 7, RestrictChatMember 7 42 259200000000,
                       SendMessage 7 (ascii ''User 42 has been muted for 3 days.'')]"
    by code_simp
  show ?thesis
    unfolding Let_def using h10 h11 h12 h13 a c by blast
qed

section \<open>Properties of the scheduled broadcaster\<close>

lemma post_brand_assets_append:
  "post_brand_assets tbot g (xs @ ys) tr =
     (case post_brand_assets tbot g xs tr of
        (None, tr') \<Rightarrow> post_brand_assets tbot g ys tr'
      | (Some e, tr') \<Rightarrow> (Some e, tr'))"
  by (induction xs arbitrary: tr) auto

lemma post_brand_assets_all_ok:
  assumes "list_all (\<lambda>m. \<not> raises tbot (SendMessage g m) \<and>
                         \<not> raises tbot (PinChatMessage g (sent_message_id tbot g m))) msgs"
  shows "post_brand_assets tbot g msgs tr =
           (None, tr @ concat (map (\<lambda>m. [SendMessage g m, PinChatMessage g (sent_message_id tbot g m)]) msgs))"
  using assms by (induction msgs arbitrary: tr) auto

text \<open>The loop has no handler: when sending the first of two messages fails, the run ends
  with the exception and the second message is never attempted.\<close>

theorem brand_assets_failure_skips_rest:
  "post_brand_assets
     \<lparr>raises = (\<lambda>c. c = SendMessage 9 ''logo''), administrators = (\<lambda>chat_id. []),
      sent_message_id = (\<lambda>chat_id t. 100), path_exists = (\<lambda>p. False)\<rparr>
     9 [''logo'', ''colours''] []
   = (Some TelegramError, [SendMessage 9 ''logo''])"
  by code_simp

text \<open>
  Claim C10, amended. A run of \<^verbatim>\<open>post_brand_assets\<close> sends and pins the messages in
  order until the first call that fails: when the messages before \<open>m\<close> are sent and
  pinned and the send or the pin of \<open>m\<close> fails, the run ends with the exception right
  after the failing call, whatever messages follow \<open>m\<close> (none of them is attempted);
  when no send and no pin fails, every message of the sequence is sent and pinned.
\<close>

theorem brand_assets_run_stops_at_first_failure:
  "(list_all (\<lambda>m. \<not> raises tbot (SendMessage g m) \<and>
                   \<not> raises tbot (PinChatMessage g (sent_message_id tbot g m))) pre \<and>
    (raises tbot (SendMessage g m) \<or> raises tbot (PinChatMessage g (sent_message_id tbot g m))) \<longrightarrow>
      post_brand_assets tbot g (pre @ m # rest) tr =
        (Some TelegramError,
         tr @ concat (map (\<lambda>m. [SendMessage g m, PinChatMessage g (sent_message_id tbot g m)]) pre)
            @ (if raises tbot (SendMessage g m) then [SendMessage g m]
               else [SendMessage g m, PinChatMessage g (sent_message_id tbot g m)])))
   \<and> (list_all (\<lambda>m. \<not> raises tbot (SendMessage g m) \<and>
                   \<not> raises tbot (PinChatMessage g (sent_message_id tbot g m))) msgs \<longrightarrow>
      post_brand_assets tbot g msgs tr =
        (None, tr @ concat (map (\<lambda>m. [SendMessage g m, PinChatMessage g (sent_message_id tbot g m)]) msgs)))"
proof (intro conjI impI)
  assume a: "list_all (\<lambda>m. \<not> raises tbot (SendMessage g m) \<and>
                   \<not> raises tbot (PinChatMessage g (sent_message_id tbot g m))) pre \<and>
    (raises tbot (SendMessage g m) \<or> raises tbot (PinChatMessage g (sent_message_id tbot g m)))"
  then have pre: "post_brand_assets tbot g pre tr =
           (None, tr @ concat (map (\<lambda>m. [SendMessage g m, PinChatMessage g (sent_message_id tbot g m)]) pre))"
    using post_brand_assets_all_ok by blast
  show "post_brand_assets tbot g (pre @ m # rest) tr =
        (Some TelegramError,
         tr @ concat (map (\<lambda>m. [SendMessage g m, PinChatMessage g (sent_message_id tbot g m)]) pre)
            @ (if raises tbot (SendMessage g m) then [SendMessage g m]
               else [SendMessage g m, PinChatMessage g (sent_message_id tbot g m)]))"
    using a by (auto simp: post_brand_assets_append pre)
next
  assume "list_all (\<lambda>m. \<not> raises tbot (SendMessage g m) \<and>
                   \<not> raises tbot (PinChatMessage g (sent_message_id tbot g m))) msgs"
  then show "post_brand_assets tbot g msgs tr =
        (None, tr @ concat (map (\<lambda>m. [SendMessage g m, PinChatMessage g (sent_message_id tbot g m)]) msgs))"
    by (rule post_brand_assets_all_ok)
qed

text \<open>An instance: the pin of the second of three messages fails and the third is not
  attempted; without the second message the run completes.\<close>

theorem brand_assets_run_stops_at_first_failure_witness:
  "post_brand_assets
     \<lparr>raises = (\<lambda>c. c = PinChatMessage 9 101), administrators = (\<lambda>chat_id. []),
      sent_message_id = (\<lambda>chat_id t. if t = ''palette'' then 101 else 100),
      path_exists = (\<lambda>p. False)\<rparr>
     9 ([''logo''] @ ''palette'' # [''fonts'']) []
   = (Some TelegramError,
      [SendMessage 9 ''logo'', PinChatMessage 9 100, SendMessage 9 ''palette'', PinChatMessage 9 101])
   \<and> post_brand_assets
     \<lparr>raises = (\<lambda>c. c = PinChatMessage 9 101), administrators = (\<lambda>chat_id. []),
      sent_message_id = (\<lambda>chat_id t. if t = ''palette'' then 101 else 100),
      path_exists = (\<lambda>p. False)\<rparr>
     9 [''logo'', ''fonts''] []
   = (None, [SendMessage 9 ''logo'', PinChatMessage 9 100, SendMessage 9 ''fonts'', PinChatMessage 9 100])"
proof -
  let ?tbot = "\<lparr>raises = (\<lambda>c. c = PinChatMessage 9 101), administrators = (\<lambda>chat_id. []),
      sent_message_id = (\<lambda>chat_id t. if t = ''palette'' then 101 else 100),
      path_exists = (\<lambda>p. False)\<rparr>"
  note t = brand_assets_run_stops_at_first_failure
             [of ?tbot 9 "[''logo'']" "''palette''" "[''fonts'']" "[]" "[''logo'', ''fonts'']"]
  have p1: "list_all (\<lambda>m. \<not> raises ?tbot (SendMessage 9 m) \<and>
                   \<not> raises ?tbot (PinChatMessage 9 (sent_message_id ?tbot 9 m))) [''logo'']"
    by simp
  have p2: "raises ?tbot (SendMessage 9 ''palette'') \<or>
            raises ?tbot (PinChatMessage 9 (sent_message_id ?tbot 9 ''palette''))"
    by simp
  have p3: "list_all (\<lambda>m. \<not> raises ?tbot (SendMessage 9 m) \<and>
                   \<not> raises ?tbot (PinChatMessage 9 (sent_message_id ?tbot 9 m))) [''logo'', ''fonts'']"
    by simp
  from t p1 p2 have a: "post_brand_assets ?tbot 9 ([''logo''] @ ''palette'' # [''fonts'']) [] =
     (Some TelegramError,
      [SendMessage 9 ''logo'', PinChatMessage 9 100, SendMessage 9 ''palette'', PinChatMessage 9 101])"
    by simp
  from t p3 have b: "post_brand_assets ?tbot 9 [''logo'', ''fonts''] [] =
     (None, [SendMessage 9 ''logo'', PinChatMessage 9 100, SendMessage 9 ''fonts'', PinChatMessage 9 100])"
    by simp
  from a b show ?thesis by blast
qed

end
